theory Spec2Isabelle
  imports Complex_Main
begin

chapter \<open>The launch watcher's monitors, catalog merge and trade ring\<close>

text \<open>
  A shallow embedding of the monitoring core of the launch watcher: the whale-trade
  detector with its subscription listeners and LRU cache, the tax tracker with the block search of \<open>init\<close>, the
  buyback tracker and the buyback-phase handler of the state machine, the
  upcoming-launches merge of the catalog client, and the trade ring of the API server.
  Source functions keep their names; a record field is renamed only where two records of
  the source share a field name (\<open>spent_txHash\<close>, \<open>status_spentTotal\<close>, \<open>block_number\<close>,
  \<open>context_taxTotal\<close>) or the name is taken in HOL (\<open>agent_id\<close>). All definitions come
  first, the properties after them.
\<close>

section \<open>Strings and JavaScript containers\<close>

text \<open>
  Addresses and transaction hashes are JavaScript strings. \<open>toLowerCase\<close> is modelled on
  the ASCII letters, which is all that occurs in \<open>0x\<close>-prefixed hexadecimal addresses.
\<close>

definition toLowerChar :: "char \<Rightarrow> char" where
  "toLowerChar c =
     (case map_of (zip ''ABCDEFGHIJKLMNOPQRSTUVWXYZ'' ''abcdefghijklmnopqrstuvwxyz'') c of
        Some l \<Rightarrow> l
      | None \<Rightarrow> c)"

definition toLowerCase :: "string \<Rightarrow> string" where
  "toLowerCase s = map toLowerChar s"

text \<open>
  A JavaScript \<open>Map\<close> keeps its entries in insertion order, one entry per key: an
  association list. \<open>Map.set\<close> on a key that is present replaces the value in place (the
  entry keeps its position); on a new key it appends.
\<close>

type_synonym ('k, 'v) jsmap = "('k \<times> 'v) list"

definition map_has :: "('k, 'v) jsmap \<Rightarrow> 'k \<Rightarrow> bool" where
  "map_has m k = (k \<in> set (map fst m))"

definition map_delete :: "('k, 'v) jsmap \<Rightarrow> 'k \<Rightarrow> ('k, 'v) jsmap" where
  "map_delete m k = filter (\<lambda>e. fst e \<noteq> k) m"

definition map_set :: "('k, 'v) jsmap \<Rightarrow> 'k \<Rightarrow> 'v \<Rightarrow> ('k, 'v) jsmap" where
  "map_set m k v =
     (if map_has m k then map (\<lambda>e. if fst e = k then (k, v) else e) m else m @ [(k, v)])"

definition map_values :: "('k, 'v) jsmap \<Rightarrow> 'v list" where
  "map_values m = map snd m"

section \<open>utils/lru-cache.ts\<close>

record ('k, 'v) LRUCache =
  maxSize :: nat
  cache :: "('k, 'v) jsmap"

definition new_LRUCache :: "nat \<Rightarrow> ('k, 'v) LRUCache" where
  "new_LRUCache n = \<lparr>maxSize = n, cache = []\<rparr>"

definition lru_has :: "('k, 'v) LRUCache \<Rightarrow> 'k \<Rightarrow> bool" where
  "lru_has c k = map_has (cache c) k"

text \<open>\<open>set\<close>: delete the key when present, else evict the oldest key when full; then insert.\<close>

definition lru_set :: "('k, 'v) LRUCache \<Rightarrow> 'k \<Rightarrow> 'v \<Rightarrow> ('k, 'v) LRUCache" where
  "lru_set c k v =
     (let m = cache c;
          m1 = (if map_has m k then map_delete m k
                else if length m \<ge> maxSize c then
                  (case m of [] \<Rightarrow> m | e # _ \<Rightarrow> map_delete m (fst e))
                else m)
      in c\<lparr>cache := map_set m1 k v\<rparr>)"

definition lru_clear :: "('k, 'v) LRUCache \<Rightarrow> ('k, 'v) LRUCache" where
  "lru_clear c = c\<lparr>cache := []\<rparr>"

section \<open>monitors/whale-trades.ts\<close>

text \<open>
  The handlers are typed with \<open>txHash: string\<close> and \<open>blockNumber: number\<close>, but what they
  receive at run time is whatever the subscription listener reads off the event object,
  which may be \<open>undefined\<close>. Both are therefore optional values here, with \<open>None\<close> for
  \<open>undefined\<close>; the dedup cache is a \<open>Map\<close> and accepts \<open>undefined\<close> as a key like any
  other.
\<close>

datatype Direction = BUY | SELL

record WhaleTradeInfo =
  direction :: Direction
  amountVirtual :: int
  amountToken :: int
  trader :: string
  txHash :: "string option"
  blockNumber :: "int option"
  timestamp :: int

text \<open>
  The monitor's fields that the handlers read or write. \<open>onWhaleTrade\<close> records whether a
  callback is registered; the trade handed to the callback is the handler's first result.
\<close>

record WhaleTrades =
  threshold :: int
  poolAddress :: string
  virtualIsToken0 :: bool
  lruCache :: "(string option, bool) LRUCache"
  onWhaleTrade :: bool

text \<open>The constructor, and \<open>start\<close> (which registers the callback and, in AMM-v2 mode,
  reads \<open>token0\<close> to set \<open>virtualIsToken0\<close>).\<close>

definition new_WhaleTrades :: "int \<Rightarrow> string \<Rightarrow> WhaleTrades" where
  "new_WhaleTrades thr pool =
     \<lparr>threshold = thr, poolAddress = pool, virtualIsToken0 = False,
      lruCache = new_LRUCache 1000, onWhaleTrade = False\<rparr>"

definition whale_start :: "WhaleTrades \<Rightarrow> bool \<Rightarrow> WhaleTrades" where
  "whale_start w token0IsVirtual = w\<lparr>onWhaleTrade := True, virtualIsToken0 := token0IsVirtual\<rparr>"

text \<open>\<open>handleSwap\<close>; \<open>now\<close> is the value of \<open>Date.now()\<close>.\<close>

definition handleSwap ::
  "WhaleTrades \<Rightarrow> int \<Rightarrow> string \<Rightarrow> int \<Rightarrow> int \<Rightarrow> int \<Rightarrow> int \<Rightarrow> string option \<Rightarrow> int option
     \<Rightarrow> WhaleTradeInfo option \<times> WhaleTrades" where
  "handleSwap w now sender amount0In amount1In amount0Out amount1Out hash blockNo =
     (if lru_has (lruCache w) hash then (None, w)
      else
        let deltaVirtual = (if virtualIsToken0 w then amount0In - amount0Out
                            else amount1In - amount1Out);
            deltaToken = (if virtualIsToken0 w then amount1Out - amount1In
                          else amount0Out - amount0In);
            absVirtual = (if deltaVirtual < 0 then - deltaVirtual else deltaVirtual)
        in if absVirtual < threshold w then (None, w)
           else
             let w' = w\<lparr>lruCache := lru_set (lruCache w) hash True\<rparr>;
                 trade = \<lparr>direction = (if deltaVirtual > 0 then SELL else BUY),
                          amountVirtual = absVirtual,
                          amountToken = (if deltaToken < 0 then - deltaToken else deltaToken),
                          trader = sender,
                          txHash = hash,
                          blockNumber = blockNo,
                          timestamp = now\<rparr>
             in (if onWhaleTrade w then Some trade else None, w'))"

definition handleTransfer ::
  "WhaleTrades \<Rightarrow> int \<Rightarrow> string \<Rightarrow> string \<Rightarrow> int \<Rightarrow> string option \<Rightarrow> int option
     \<Rightarrow> WhaleTradeInfo option \<times> WhaleTrades" where
  "handleTransfer w now from to val hash blockNo =
     (let poolAddr = toLowerCase (poolAddress w) in
      if toLowerCase from \<noteq> poolAddr \<and> toLowerCase to \<noteq> poolAddr then (None, w)
      else if lru_has (lruCache w) hash then (None, w)
      else if val < threshold w then (None, w)
      else
        let w' = w\<lparr>lruCache := lru_set (lruCache w) hash True\<rparr>;
            isBuy = (toLowerCase from = poolAddr);
            trade = \<lparr>direction = (if isBuy then BUY else SELL),
                     amountVirtual = val,
                     amountToken = 0,
                     trader = (if isBuy then to else from),
                     txHash = hash,
                     blockNumber = blockNo,
                     timestamp = now\<rparr>
        in (if onWhaleTrade w then Some trade else None, w'))"

text \<open>
  The subscription. \<open>addSubscription\<close> registers the listener with \<open>contract.on\<close>; for every
  matching log the library (ethers, version 6) calls the listener with the decoded
  arguments followed by one event object, a \<open>ContractEventPayload\<close>. That object carries the
  log as its property \<open>log\<close> (with the log's \<open>transactionHash\<close> and \<open>blockNumber\<close>) next to
  \<open>args\<close>, \<open>fragment\<close>, \<open>filter\<close> and \<open>emitter\<close>; it has no property \<open>transactionHash\<close> or
  \<open>blockNumber\<close> of its own. The listeners of the monitor read \<open>event.transactionHash\<close> and
  \<open>event.blockNumber\<close>, so both reads give \<open>undefined\<close>.
\<close>

record EventLog =
  log_transactionHash :: string
  log_blockNumber :: int

record ContractEventPayload =
  event_log :: EventLog

definition payload_transactionHash :: "ContractEventPayload \<Rightarrow> string option" where
  "payload_transactionHash event = None"

definition payload_blockNumber :: "ContractEventPayload \<Rightarrow> int option" where
  "payload_blockNumber event = None"

text \<open>
  What the subscription delivers: the arguments of a \<open>Swap\<close> event (\<open>sender\<close>, \<open>amount0In\<close>,
  \<open>amount1In\<close>, \<open>amount0Out\<close>, \<open>amount1Out\<close>, \<open>to\<close>) or of a \<open>Transfer\<close> event (\<open>from\<close>, \<open>to\<close>,
  \<open>value\<close>), each followed by the event object. \<open>handleEvent\<close> is the listener, called at
  wall-clock time \<open>now\<close>.
\<close>

datatype ChainEvent =
    Swap string int int int int string ContractEventPayload
  | Transfer string string int ContractEventPayload

fun handleEvent :: "WhaleTrades \<Rightarrow> int \<times> ChainEvent \<Rightarrow> WhaleTradeInfo option \<times> WhaleTrades" where
  "handleEvent w (now, Swap sender amount0In amount1In amount0Out amount1Out to event) =
     handleSwap w now sender amount0In amount1In amount0Out amount1Out
       (payload_transactionHash event) (payload_blockNumber event)"
| "handleEvent w (now, Transfer from to val event) =
     handleTransfer w now from to val (payload_transactionHash event) (payload_blockNumber event)"

text \<open>The trades a stream of deliveries hands to the callback, in order, each with the
  event it came from.\<close>

fun emitted :: "WhaleTrades \<Rightarrow> (int \<times> ChainEvent) list \<Rightarrow> (ChainEvent \<times> WhaleTradeInfo) list" where
  "emitted w [] = []"
| "emitted w (ne # es) =
     (case handleEvent w ne of
        (None, w') \<Rightarrow> emitted w' es
      | (Some t, w') \<Rightarrow> (snd ne, t) # emitted w' es)"



definition emitted_trades :: "WhaleTrades \<Rightarrow> (int \<times> ChainEvent) list \<Rightarrow> WhaleTradeInfo list" where
  "emitted_trades w es = map snd (emitted w es)"

text \<open>Two whale-size swaps of different transactions, base token is token0, threshold
  \<open>1000\<cdot>10^18\<close>: the first pays \<open>1500\<cdot>10^18\<close> base tokens into the pool, the second takes
  \<open>1200\<cdot>10^18\<close> out. And two whale-size transfers of the base token, one into and one out
  of the curve.\<close>

definition swap_monitor :: WhaleTrades where
  "swap_monitor = whale_start (new_WhaleTrades (1000 * 10 ^ 18) ''0xpool'') True"

definition curve_monitor :: WhaleTrades where
  "curve_monitor = whale_start (new_WhaleTrades (1000 * 10 ^ 18) ''0xPool'') False"

definition swap_in :: ChainEvent where
  "swap_in = Swap ''0xrouter'' (1500 * 10 ^ 18) 0 0 (7 * 10 ^ 18) ''0xalice''
     \<lparr>event_log = \<lparr>log_transactionHash = ''0xaaa'', log_blockNumber = 101\<rparr>\<rparr>"

definition swap_out :: ChainEvent where
  "swap_out = Swap ''0xrouter'' 0 (6 * 10 ^ 18) (1200 * 10 ^ 18) 0 ''0xbob''
     \<lparr>event_log = \<lparr>log_transactionHash = ''0xbbb'', log_blockNumber = 102\<rparr>\<rparr>"

definition transfer_in :: ChainEvent where
  "transfer_in = Transfer ''0xalice'' ''0xpool'' (1500 * 10 ^ 18)
     \<lparr>event_log = \<lparr>log_transactionHash = ''0xccc'', log_blockNumber = 103\<rparr>\<rparr>"

definition transfer_out :: ChainEvent where
  "transfer_out = Transfer ''0xpool'' ''0xbob'' (1200 * 10 ^ 18)
     \<lparr>event_log = \<lparr>log_transactionHash = ''0xddd'', log_blockNumber = 104\<rparr>\<rparr>"

section \<open>RPC endpoints and providers/rpc-pool.ts\<close>

text \<open>
  A thrown JavaScript exception is a value \<open>Exn msg\<close>; an operation that may throw returns
  \<open>exn + 'a\<close>. Block numbers, timestamps and \<open>bigint\<close> amounts are integers (JavaScript
  numbers are exact on the integers that occur here).
\<close>

datatype exn = Exn string

record Block =
  block_number :: int
  block_timestamp :: int

text \<open>
  A decoded log of the token's \<open>Transfer\<close> event: \<open>args = Some (from, to, value)\<close>, or
  \<open>None\<close> for a log without decoded arguments (which the tracker skips).
\<close>

record TransferLog =
  args :: "(string \<times> string \<times> int) option"

text \<open>
  What one HTTP endpoint answers while one call of the tracker runs. \<open>balanceOfAt b k\<close> is
  the answer to the \<open>k\<close>-th historical balance read at block tag \<open>b\<close> (\<open>init\<close> reads twice
  when the first read throws). The network maps the index of a provider in the pool to
  its endpoint.
\<close>

record Endpoint =
  getBlockNumber :: "exn + int"
  getBlockLatest :: "exn + Block option"
  getBlock :: "int \<Rightarrow> exn + Block option"
  queryFilter :: "int \<Rightarrow> int \<Rightarrow> exn + TransferLog list"
  balanceOf :: "exn + int"
  balanceOfAt :: "int \<Rightarrow> nat \<Rightarrow> exn + int"

type_synonym Net = "nat \<Rightarrow> Endpoint"

text \<open>The pool: the number of HTTP providers (at least one, or the constructor throws)
  and the index of the active one.\<close>

record RpcPool =
  httpProviders :: nat
  currentHttpIndex :: nat

definition rotateHttp :: "RpcPool \<Rightarrow> RpcPool" where
  "rotateHttp p = p\<lparr>currentHttpIndex := (currentHttpIndex p + 1) mod httpProviders p\<rparr>"

section \<open>utils/time-to-block.ts\<close>

function bsearch :: "Endpoint \<Rightarrow> int \<Rightarrow> int \<Rightarrow> int \<Rightarrow> exn + int" where
  "bsearch provider targetTime lo hi =
     (if lo < hi then
        (case getBlock provider ((lo + hi) div 2) of
           Inl e \<Rightarrow> Inl e
         | Inr None \<Rightarrow> Inr lo
         | Inr (Some block) \<Rightarrow>
             if block_timestamp block * 1000 < targetTime
             then bsearch provider targetTime ((lo + hi) div 2 + 1) hi
             else bsearch provider targetTime lo ((lo + hi) div 2))
      else Inr lo)"
  by pat_completeness auto
termination
  by (relation "measure (\<lambda>(p, t, lo, hi). nat (hi - lo))") auto

definition timeToBlock :: "Endpoint \<Rightarrow> int \<Rightarrow> exn + int" where
  "timeToBlock provider ts =
     (case getBlockLatest provider of
        Inl e \<Rightarrow> Inl e
      | Inr None \<Rightarrow> Inl (Exn ''Failed to get latest block'')
      | Inr (Some latestBlock) \<Rightarrow>
          let latestTime = block_timestamp latestBlock * 1000;
              targetTime = ts
          in if targetTime \<ge> latestTime then Inr (block_number latestBlock)
             else
               let blockDiff = (latestTime - targetTime) div 2000;
                   targetBlockNum = max 0 (block_number latestBlock - blockDiff);
                   lo = max 0 (targetBlockNum - 500);
                   hi = min (block_number latestBlock) (targetBlockNum + 500)
               in bsearch provider targetTime lo hi)"

section \<open>monitors/tax-tracker.ts\<close>

record TaxResult =
  inflow :: int
  outflow :: int
  netInflow :: int
  balanceDiff :: int
  delta :: int

text \<open>\<open>virtualToken\<close> is the contract handle: the index of the provider it is bound to.\<close>

record TaxTracker =
  virtualToken :: nat
  buybackAddr :: string
  blockStart :: int
  lastProcessedBlock :: int
  startBalance :: int
  accumulated :: TaxResult

definition new_TaxTracker :: "RpcPool \<Rightarrow> string \<Rightarrow> TaxTracker" where
  "new_TaxTracker pool addr =
     \<lparr>virtualToken = currentHttpIndex pool, buybackAddr = toLowerCase addr,
      blockStart = 0, lastProcessedBlock = 0, startBalance = 0,
      accumulated = \<lparr>inflow = 0, outflow = 0, netInflow = 0, balanceDiff = 0, delta = 0\<rparr>\<rparr>"

definition tax_init :: "Net \<Rightarrow> RpcPool \<Rightarrow> TaxTracker \<Rightarrow> int \<Rightarrow> exn + TaxTracker" where
  "tax_init net pool t t0 =
     (case timeToBlock (net (currentHttpIndex pool)) t0 of
        Inl e \<Rightarrow> Inl e
      | Inr b \<Rightarrow>
          let contract = net (virtualToken t);
              bal = (case balanceOfAt contract b 0 of
                       Inr v \<Rightarrow> v
                     | Inl _ \<Rightarrow> (case balanceOfAt contract b 1 of Inr v \<Rightarrow> v | Inl _ \<Rightarrow> 0))
          in Inr (t\<lparr>blockStart := b, lastProcessedBlock := b, startBalance := bal\<rparr>))"

text \<open>The \<open>for\<close> loop of \<open>update\<close> over the logs, with its two running sums.\<close>

fun sumTransfers :: "string \<Rightarrow> TransferLog list \<Rightarrow> int \<times> int \<Rightarrow> int \<times> int" where
  "sumTransfers addr [] (inflowDelta, outflowDelta) = (inflowDelta, outflowDelta)"
| "sumTransfers addr (l # ls) (inflowDelta, outflowDelta) =
     (case args l of
        None \<Rightarrow> sumTransfers addr ls (inflowDelta, outflowDelta)
      | Some (from, to, val) \<Rightarrow>
          sumTransfers addr ls
            (if toLowerCase to = addr then inflowDelta + val else inflowDelta,
             if toLowerCase from = addr then outflowDelta + val else outflowDelta))"

text \<open>The \<open>catch\<close> block: rotate the pool, rebind the contract, rethrow.\<close>

definition update_failed ::
  "exn \<Rightarrow> RpcPool \<Rightarrow> TaxTracker \<Rightarrow> (exn + TaxResult) \<times> RpcPool \<times> TaxTracker" where
  "update_failed e pool t =
     (let pool' = rotateHttp pool
      in (Inl e, pool', t\<lparr>virtualToken := currentHttpIndex pool'\<rparr>))"

definition update ::
  "Net \<Rightarrow> RpcPool \<Rightarrow> TaxTracker \<Rightarrow> (exn + TaxResult) \<times> RpcPool \<times> TaxTracker" where
  "update net pool t =
     (let provider = net (currentHttpIndex pool);
          contract = net (virtualToken t)
      in case getBlockNumber provider of
           Inl e \<Rightarrow> update_failed e pool t
         | Inr latestBlock \<Rightarrow>
             (if latestBlock \<le> lastProcessedBlock t then (Inr (accumulated t), pool, t)
              else
                let toBlock = min latestBlock (lastProcessedBlock t + 2000)
                in (case queryFilter contract (lastProcessedBlock t + 1) toBlock of
                      Inl e \<Rightarrow> update_failed e pool t
                    | Inr logs \<Rightarrow>
                        (let deltas = sumTransfers (buybackAddr t) logs (0, 0);
                             inflowDelta = fst deltas;
                             outflowDelta = snd deltas;
                             acc = accumulated t;
                             acc1 = acc\<lparr>inflow := inflow acc + inflowDelta,
                                        outflow := outflow acc + outflowDelta,
                                        netInflow := (inflow acc + inflowDelta)
                                                     - (outflow acc + outflowDelta)\<rparr>;
                             t1 = t\<lparr>accumulated := acc1\<rparr>
                         in (case balanceOf contract of
                               Inl e \<Rightarrow> update_failed e pool t1
                             | Inr currentBalance \<Rightarrow>
                                 (let acc2 = acc1\<lparr>balanceDiff := currentBalance - startBalance t,
                                                   delta := (currentBalance - startBalance t)
                                                            - netInflow acc1\<rparr>;
                                      t2 = t1\<lparr>accumulated := acc2,
                                              lastProcessedBlock := toBlock\<rparr>
                                  in (Inr acc2, pool, t2)))))))"

text \<open>A sequence of \<open>update\<close> calls, one network answer per call; the caller keeps calling
  after a failure. \<open>updates\<close> gives the state after the last call, \<open>update_trace\<close> the
  state after every call.\<close>

fun updates :: "Net list \<Rightarrow> RpcPool \<times> TaxTracker \<Rightarrow> RpcPool \<times> TaxTracker" where
  "updates [] s = s"
| "updates (net # nets) s = updates nets (snd (update net (fst s) (snd s)))"

fun update_trace :: "Net list \<Rightarrow> RpcPool \<times> TaxTracker \<Rightarrow> (RpcPool \<times> TaxTracker) list" where
  "update_trace [] s = []"
| "update_trace (net # nets) s =
     (let s' = snd (update net (fst s) (snd s)) in s' # update_trace nets s')"

section \<open>JavaScript numbers in the buyback status\<close>

text \<open>
  The display-scaled figures of the status (\<open>ratePerHour\<close>, \<open>etaHours\<close>, \<open>progress\<close>) are
  JavaScript numbers. They are modelled by exact rationals together with the three
  special values; the rounding of IEEE doubles and the sign of zero are not modelled.
  Division by zero is written out as JavaScript has it.
\<close>

datatype jsnum = Num rat | PosInfinity | NegInfinity | NaN

fun js_div :: "jsnum \<Rightarrow> jsnum \<Rightarrow> jsnum" where
  "js_div (Num a) (Num b) =
     (if b = 0 then (if a = 0 then NaN else if a > 0 then PosInfinity else NegInfinity)
      else Num (a / b))"
| "js_div (Num a) PosInfinity = Num 0"
| "js_div (Num a) NegInfinity = Num 0"
| "js_div PosInfinity (Num b) = (if b < 0 then NegInfinity else PosInfinity)"
| "js_div NegInfinity (Num b) = (if b < 0 then PosInfinity else NegInfinity)"
| "js_div _ _ = NaN"

fun js_mul :: "jsnum \<Rightarrow> jsnum \<Rightarrow> jsnum" where
  "js_mul (Num a) (Num b) = Num (a * b)"
| "js_mul PosInfinity (Num b) =
     (if b = 0 then NaN else if b > 0 then PosInfinity else NegInfinity)"
| "js_mul NegInfinity (Num b) =
     (if b = 0 then NaN else if b > 0 then NegInfinity else PosInfinity)"
| "js_mul (Num a) PosInfinity =
     (if a = 0 then NaN else if a > 0 then PosInfinity else NegInfinity)"
| "js_mul (Num a) NegInfinity =
     (if a = 0 then NaN else if a > 0 then NegInfinity else PosInfinity)"
| "js_mul PosInfinity PosInfinity = PosInfinity"
| "js_mul NegInfinity NegInfinity = PosInfinity"
| "js_mul PosInfinity NegInfinity = NegInfinity"
| "js_mul NegInfinity PosInfinity = NegInfinity"
| "js_mul _ _ = NaN"

text \<open>\<open>x > 0\<close> on a JavaScript number.\<close>

fun js_positive :: "jsnum \<Rightarrow> bool" where
  "js_positive (Num a) = (a > 0)"
| "js_positive PosInfinity = True"
| "js_positive _ = False"

text \<open>\<open>Number(ethers.formatEther(x))\<close>: the amount in display units (18 decimals).\<close>

definition formatEtherNum :: "int \<Rightarrow> jsnum" where
  "formatEtherNum x = Num (of_int x / 10 ^ 18)"

text \<open>\<open>bigint\<close> division truncates towards zero.\<close>

definition bigint_div :: "int \<Rightarrow> int \<Rightarrow> int" where
  "bigint_div a b = sgn a * sgn b * (\<bar>a\<bar> div \<bar>b\<bar>)"

section \<open>monitors/buyback-tracker.ts\<close>

record SpentRecord =
  time :: int
  amount :: int
  spent_txHash :: string

record BuybackStatus =
  status_spentTotal :: int
  spentWindow :: int
  ratePerHour :: jsnum
  remaining :: int
  etaHours :: jsnum
  progress :: jsnum

text \<open>\<open>onStall\<close> records whether a stall callback is registered.\<close>

record BuybackTracker =
  taxTotal :: int
  rateWindowMinutes :: rat
  stallAlertMinutes :: rat
  spentHistory :: "SpentRecord list"
  spentTotal :: int
  lastSpentTime :: int
  onStall :: bool
  isRunning :: bool
  stallAlerted :: bool

definition new_BuybackTracker :: "rat \<Rightarrow> rat \<Rightarrow> int \<Rightarrow> BuybackTracker" where
  "new_BuybackTracker rateWindow stallAlert budget =
     \<lparr>taxTotal = budget, rateWindowMinutes = rateWindow, stallAlertMinutes = stallAlert,
      spentHistory = [], spentTotal = 0, lastSpentTime = 0, onStall = False,
      isRunning = False, stallAlerted = False\<rparr>"

text \<open>\<open>start\<close>, given whether the push connection could be established.\<close>

definition buyback_start :: "BuybackTracker \<Rightarrow> bool \<Rightarrow> exn + unit \<Rightarrow> (exn + unit) \<times> BuybackTracker" where
  "buyback_start t callback connectResult =
     (if isRunning t then (Inr (), t)
      else
        let t' = t\<lparr>onStall := callback, isRunning := True\<rparr>
        in (case connectResult of Inl e \<Rightarrow> (Inl e, t') | Inr _ \<Rightarrow> (Inr (), t')))"

definition recordSpent :: "BuybackTracker \<Rightarrow> int \<Rightarrow> int \<Rightarrow> string \<Rightarrow> BuybackTracker" where
  "recordSpent t now amt hash =
     (let pushed = spentHistory t @ [\<lparr>time = now, amount = amt, spent_txHash = hash\<rparr>];
          windowStart = of_int now - rateWindowMinutes t * 60 * 1000
      in t\<lparr>spentTotal := spentTotal t + amt,
            lastSpentTime := now,
            stallAlerted := False,
            spentHistory := filter (\<lambda>h. of_int (time h) \<ge> windowStart) pushed\<rparr>)"

definition getStatus :: "BuybackTracker \<Rightarrow> int \<Rightarrow> BuybackStatus" where
  "getStatus t now =
     (let windowStart = of_int now - rateWindowMinutes t * 60 * 1000;
          spentWin = foldl (\<lambda>acc h. acc + amount h) 0
                       (filter (\<lambda>h. of_int (time h) \<ge> windowStart) (spentHistory t));
          windowSeconds = rateWindowMinutes t * 60;
          spentWindowNum = formatEtherNum spentWin;
          rate = js_mul (js_div spentWindowNum (Num windowSeconds)) (Num 3600);
          rem = (if taxTotal t > spentTotal t then taxTotal t - spentTotal t else 0);
          remainingNum = formatEtherNum rem;
          eta = (if js_positive rate then js_div remainingNum rate else PosInfinity);
          prog = (if taxTotal t > 0
                  then js_div (Num (of_int (bigint_div (spentTotal t * 10000) (taxTotal t))))
                         (Num 100)
                  else Num 0)
      in \<lparr>status_spentTotal = spentTotal t, spentWindow = spentWin, ratePerHour = rate,
          remaining = rem, etaHours = eta, progress = prog\<rparr>)"

definition isStalled :: "BuybackTracker \<Rightarrow> int \<Rightarrow> bool" where
  "isStalled t now =
     (if spentTotal t \<ge> taxTotal t then False
      else
        let stallThreshold = stallAlertMinutes t * 60 * 1000
        in if lastSpentTime t = 0 then False
           else of_int (now - lastSpentTime t) > stallThreshold)"

text \<open>\<open>checkStall\<close>: the first result tells whether the stall callback was invoked.\<close>

definition checkStall :: "BuybackTracker \<Rightarrow> int \<Rightarrow> bool \<times> BuybackTracker" where
  "checkStall t now =
     (if isStalled t now \<and> \<not> stallAlerted t \<and> onStall t
      then (True, t\<lparr>stallAlerted := True\<rparr>)
      else (False, t))"

definition isComplete :: "BuybackTracker \<Rightarrow> bool" where
  "isComplete t = (spentTotal t \<ge> taxTotal t)"

text \<open>A run of the tracker: spends delivered by the subscription and calls of
  \<open>checkStall\<close>, each at its wall-clock time. \<open>stall_run\<close> lists, call by call, whether
  the stall callback fired.\<close>

datatype BuybackCall = RecordSpent int int string | CheckStall int

fun buyback_step :: "BuybackTracker \<Rightarrow> BuybackCall \<Rightarrow> bool \<times> BuybackTracker" where
  "buyback_step t (RecordSpent now amt hash) = (False, recordSpent t now amt hash)"
| "buyback_step t (CheckStall now) = checkStall t now"

fun stall_run :: "BuybackTracker \<Rightarrow> BuybackCall list \<Rightarrow> bool list" where
  "stall_run t [] = []"
| "stall_run t (c # cs) = fst (buyback_step t c) # stall_run (snd (buyback_step t c)) cs"

fun buyback_run :: "BuybackTracker \<Rightarrow> BuybackCall list \<Rightarrow> BuybackTracker" where
  "buyback_run t [] = t"
| "buyback_run t (c # cs) = buyback_run (snd (buyback_step t c)) cs"

fun is_spend :: "BuybackCall \<Rightarrow> bool" where
  "is_spend (RecordSpent _ _ _) = True"
| "is_spend (CheckStall _) = False"

section \<open>types.ts: the catalog's agents\<close>

datatype AgentStatus = INITIALIZED | UNDERGRAD | AVAILABLE

text \<open>The fields of \<open>VirtualsAgent\<close> that the code below reads; a nullable string is a
  \<open>string option\<close>.\<close>

record VirtualsAgent =
  agent_id :: int
  name :: string
  symbol :: string
  status :: AgentStatus
  preTokenPair :: "string option"
  lpAddress :: "string option"
  lpCreatedAt :: "string option"
  launchedAt :: "string option"

text \<open>Truthiness of a \<open>string | null\<close>: \<open>null\<close> and the empty string are falsy.\<close>

fun truthy :: "string option \<Rightarrow> bool" where
  "truthy None = False"
| "truthy (Some s) = (s \<noteq> [])"

section \<open>providers/virtuals-api.ts: upcoming launches\<close>

text \<open>\<open>parseTimestamp\<close>; the library function \<open>Date.parse\<close> is a parameter, with \<open>None\<close>
  for \<open>NaN\<close>.\<close>

definition parseTimestamp :: "(string \<Rightarrow> int option) \<Rightarrow> string option \<Rightarrow> int option" where
  "parseTimestamp dateParse v =
     (case v of None \<Rightarrow> None | Some s \<Rightarrow> if s = [] then None else dateParse s)"

text \<open>The loop \<open>for (const agent of merged) deduped.set(agent.id, agent)\<close>.\<close>

definition dedupe :: "VirtualsAgent list \<Rightarrow> (int, VirtualsAgent) jsmap" where
  "dedupe merged = foldl (\<lambda>deduped agent. map_set deduped (agent_id agent) agent) [] merged"

definition launchKey :: "(string \<Rightarrow> int option) \<Rightarrow> VirtualsAgent \<Rightarrow> int" where
  "launchKey dateParse a =
     (case parseTimestamp dateParse (launchedAt a) of None \<Rightarrow> 0 | Some ts \<Rightarrow> ts)"

definition isPending :: "VirtualsAgent \<Rightarrow> bool" where
  "isPending agent =
     (status agent = INITIALIZED \<and> truthy (preTokenPair agent) \<and> \<not> truthy (lpCreatedAt agent))"

definition launchesSoon :: "(string \<Rightarrow> int option) \<Rightarrow> int \<Rightarrow> VirtualsAgent \<Rightarrow> bool" where
  "launchesSoon dateParse nowTs agent =
     (case parseTimestamp dateParse (launchedAt agent) of
        None \<Rightarrow> False
      | Some launchTs \<Rightarrow>
          let maxTs = nowTs + 10 * 24 * 60 * 60 * 1000
          in launchTs \<ge> nowTs \<and> launchTs \<le> maxTs)"

text \<open>The body of the in-flight computation, from the three exhausted factory lists.
  \<open>Array.prototype.sort\<close> is stable; \<open>sort_key\<close> is a stable sort by key.\<close>

definition upcomingFrom ::
  "(string \<Rightarrow> int option) \<Rightarrow> int \<Rightarrow> VirtualsAgent list \<Rightarrow> VirtualsAgent list
     \<Rightarrow> VirtualsAgent list \<Rightarrow> VirtualsAgent list" where
  "upcomingFrom dateParse nowTs vibes unicorn unicornV2 =
     (let merged = vibes @ unicorn @ unicornV2;
          deduped = dedupe merged
      in sort_key (launchKey dateParse)
           (filter (launchesSoon dateParse nowTs)
              (filter isPending (map_values deduped))))"

record VirtualsApi =
  upcomingCache :: "(int \<times> VirtualsAgent list) option"

text \<open>
  \<open>getUpcomingLaunches\<close>, called at time \<open>now\<close> with no request in flight. The three
  lists are the results of the three exhaustive factory queries (each may throw);
  \<open>nowTs\<close> is the clock when the filter runs and \<open>cacheTs\<close> when the cache is written.
\<close>

definition getUpcomingLaunches ::
  "VirtualsApi \<Rightarrow> (string \<Rightarrow> int option) \<Rightarrow> int \<Rightarrow> int \<Rightarrow> int
     \<Rightarrow> exn + VirtualsAgent list \<Rightarrow> exn + VirtualsAgent list \<Rightarrow> exn + VirtualsAgent list
     \<Rightarrow> (exn + VirtualsAgent list) \<times> VirtualsApi" where
  "getUpcomingLaunches api dateParse now nowTs cacheTs vibesR unicornR unicornV2R =
     (let fresh = (case upcomingCache api of
                     None \<Rightarrow> None
                   | Some (ts, cached) \<Rightarrow> if now - ts < 30000 then Some cached else None)
      in case fresh of
           Some cached \<Rightarrow> (Inr cached, api)
         | None \<Rightarrow>
             (case (vibesR, unicornR, unicornV2R) of
                (Inr vibes, Inr unicorn, Inr unicornV2) \<Rightarrow>
                  (let result = upcomingFrom dateParse nowTs vibes unicorn unicornV2
                   in (Inr result, api\<lparr>upcomingCache := Some (cacheTs, result)\<rparr>))
              | (Inl e, _, _) \<Rightarrow> (Inl e, api)
              | (_, Inl e, _) \<Rightarrow> (Inl e, api)
              | (_, _, Inl e) \<Rightarrow> (Inl e, api)))"

section \<open>providers/api-server.ts: the trade ring\<close>

datatype ApiEventType =
  state_change | whale_trade | tax_update | buyback_update | project_start
  | project_complete | error_event

datatype ApiEventData =
    WhaleTradeData Direction int string "string option" "int option"
  | OtherData







section \<open>state-machine.ts: the buyback phase\<close>

datatype State = DISCOVER | WAIT_T0 | LAUNCH_WINDOW | BUYBACK_PHASE | DONE

text \<open>The part of the machine that \<open>handleBuybackPhase\<close> reads or writes.\<close>

record StateMachine =
  state :: State
  project :: "VirtualsAgent option"
  context_taxTotal :: int
  context_startBalance :: "int option"
  lastBuybackUpdate :: "int option"
  lastProjectStatusCheck :: "int option"
  buybackTracker :: "BuybackTracker option"

definition transition :: "State \<Rightarrow> StateMachine \<Rightarrow> StateMachine" where
  "transition newState sm =
     sm\<lparr>state := newState,
        context_startBalance := (if newState = DISCOVER then None else context_startBalance sm)\<rparr>"

text \<open>What the outside answers during one run of the handler: whether the tracker's push
  connection comes up, the catalog's answer for the project, whether the notifier
  throws; \<open>tick_now\<close> is the clock (one reading for the whole run).\<close>

record BuybackEnv =
  connectResult :: "exn + unit"
  tick_now :: int
  projectById :: "exn + VirtualsAgent option"
  sendBuybackStatus :: "exn + unit"

definition graduated :: "exn + VirtualsAgent option \<Rightarrow> bool" where
  "graduated r =
     (case r of
        Inr (Some fresh) \<Rightarrow> status fresh = AVAILABLE \<or> truthy (lpAddress fresh)
      | _ \<Rightarrow> False)"

definition handleBuybackPhase ::
  "rat \<Rightarrow> rat \<Rightarrow> BuybackEnv \<Rightarrow> StateMachine \<Rightarrow> (exn + unit) \<times> StateMachine" where
  "handleBuybackPhase rateWindow stallAlert env sm =
     (case project sm of
        None \<Rightarrow> (Inr (), transition DISCOVER sm)
      | Some agent \<Rightarrow>
          (let started = (case buybackTracker sm of
                            None \<Rightarrow>
                              buyback_start
                                (new_BuybackTracker rateWindow stallAlert (context_taxTotal sm))
                                True (connectResult env)
                          | Some tr \<Rightarrow> (Inr (), tr));
               tr = snd started;
               sm1 = sm\<lparr>buybackTracker := Some tr\<rparr>
           in (case fst started of
                 Inl e \<Rightarrow> (Inl e, sm1)
               | Inr _ \<Rightarrow>
                   (if isComplete tr then (Inr (), transition DONE sm1)
                    else
                      let now = tick_now env;
                          checkDue = (case lastProjectStatusCheck sm1 of
                                        None \<Rightarrow> True
                                      | Some l \<Rightarrow> now - l \<ge> 60 * 1000);
                          sm2 = (if checkDue then sm1\<lparr>lastProjectStatusCheck := Some now\<rparr>
                                 else sm1)
                      in if checkDue \<and> graduated (projectById env)
                         then (Inr (), transition DONE sm2)
                         else
                           let updateDue = (case lastBuybackUpdate sm2 of
                                              None \<Rightarrow> True
                                            | Some l \<Rightarrow> now - l \<ge> 10 * 60 * 1000)
                           in if \<not> updateDue then (Inr (), sm2)
                              else
                                let sm3 = sm2\<lparr>lastBuybackUpdate := Some now\<rparr>
                                in (case sendBuybackStatus env of
                                      Inl e \<Rightarrow> (Inl e, sm3)
                                    | Inr _ \<Rightarrow>
                                        (Inr (),
                                         sm3\<lparr>buybackTracker :=
                                                Some (snd (checkStall tr now))\<rparr>))))))"

section \<open>Tax tracker: what a sequence of updates was handed\<close>

text \<open>The contribution of one log to the inflow and to the outflow of the receiver
  \<open>addr\<close> (already in lower case, as \<open>buybackAddr\<close> is).\<close>

definition inflowOf :: "string \<Rightarrow> TransferLog \<Rightarrow> int" where
  "inflowOf addr l =
     (case args l of
        None \<Rightarrow> 0
      | Some (from, to, val) \<Rightarrow> if toLowerCase to = addr then val else 0)"

definition outflowOf :: "string \<Rightarrow> TransferLog \<Rightarrow> int" where
  "outflowOf addr l =
     (case args l of
        None \<Rightarrow> 0
      | Some (from, to, val) \<Rightarrow> if toLowerCase from = addr then val else 0)"

text \<open>The logs the log query hands to one call of \<open>update\<close> (none when the call returns
  early or throws before the query answers), and to a sequence of calls.\<close>

definition queried :: "Net \<Rightarrow> RpcPool \<times> TaxTracker \<Rightarrow> TransferLog list" where
  "queried net s =
     (case getBlockNumber (net (currentHttpIndex (fst s))) of
        Inl _ \<Rightarrow> []
      | Inr latestBlock \<Rightarrow>
          (if latestBlock \<le> lastProcessedBlock (snd s) then []
           else
             (case queryFilter (net (virtualToken (snd s))) (lastProcessedBlock (snd s) + 1)
                     (min latestBlock (lastProcessedBlock (snd s) + 2000)) of
                Inl _ \<Rightarrow> []
              | Inr logs \<Rightarrow> logs)))"

fun processed :: "Net list \<Rightarrow> RpcPool \<times> TaxTracker \<Rightarrow> TransferLog list" where
  "processed [] s = []"
| "processed (net # nets) s =
     queried net s @ processed nets (snd (update net (fst s) (snd s)))"

text \<open>Every call of the sequence returns normally.\<close>

fun all_succeed :: "Net list \<Rightarrow> RpcPool \<times> TaxTracker \<Rightarrow> bool" where
  "all_succeed [] s = True"
| "all_succeed (net # nets) s =
     (\<not> isl (fst (update net (fst s) (snd s)))
      \<and> all_succeed nets (snd (update net (fst s) (snd s))))"

text \<open>
  The tax-accounting scenario: the receiver held \<open>1000\<cdot>10^18\<close> at \<open>blockStart\<close>; the next
  100 blocks hold two transfers to the receiver (\<open>200\<cdot>10^18\<close> and \<open>50\<cdot>10^18\<close>) and one from
  it (\<open>30\<cdot>10^18\<close>); the balance is then \<open>1220\<cdot>10^18\<close>.
\<close>

definition scenario_pool :: RpcPool where
  "scenario_pool = \<lparr>httpProviders = 2, currentHttpIndex = 0\<rparr>"

definition scenario_tracker :: TaxTracker where
  "scenario_tracker =
     (new_TaxTracker scenario_pool ''0xBuyBack'')
       \<lparr>blockStart := 5000, lastProcessedBlock := 5000, startBalance := 1000 * 10 ^ 18\<rparr>"

definition scenario_logs :: "TransferLog list" where
  "scenario_logs =
     [\<lparr>args = Some (''0xAlice'', ''0xBUYBACK'', 200 * 10 ^ 18)\<rparr>,
      \<lparr>args = Some (''0xBob'', ''0xbuyback'', 50 * 10 ^ 18)\<rparr>,
      \<lparr>args = Some (''0xBuyBack'', ''0xCarol'', 30 * 10 ^ 18)\<rparr>]"

definition scenario_endpoint :: Endpoint where
  "scenario_endpoint =
     \<lparr>getBlockNumber = Inr 5100,
      getBlockLatest = Inr (Some \<lparr>block_number = 5100, block_timestamp = 1700000200\<rparr>),
      getBlock = (\<lambda>n. Inr (Some \<lparr>block_number = n, block_timestamp = 1699990000 + 2 * n\<rparr>)),
      queryFilter = (\<lambda>a b. if a = 5001 \<and> b = 5100 then Inr scenario_logs else Inr []),
      balanceOf = Inr (1220 * 10 ^ 18),
      balanceOfAt = (\<lambda>b k. Inr (1000 * 10 ^ 18))\<rparr>"

definition scenario_net :: Net where
  "scenario_net k = scenario_endpoint"

text \<open>The same chain seen through an endpoint whose balance read throws.\<close>

definition flaky_net :: Net where
  "flaky_net k = scenario_endpoint\<lparr>balanceOf := Inl (Exn ''balanceOf: timeout'')\<rparr>"

section \<open>Buyback tracker: scenarios\<close>

text \<open>Stall then recovery: a started tracker with budget \<open>1000\<cdot>10^18\<close>, a rate window of 20
  minutes and a stall alert of 5 minutes; a spend, two stall checks six minutes later, a
  second spend, and a stall check six minutes after it. Times are in milliseconds.\<close>

definition stall_tracker :: BuybackTracker where
  "stall_tracker =
     snd (buyback_start (new_BuybackTracker 20 5 (1000 * 10 ^ 18)) True (Inr ()))"

definition stall_calls :: "BuybackCall list" where
  "stall_calls =
     [RecordSpent 1000000 (100 * 10 ^ 18) ''0xa1'',
      CheckStall 1360001,
      CheckStall 1370000,
      RecordSpent 1400000 (50 * 10 ^ 18) ''0xb2'',
      CheckStall 1760001]"

text \<open>Buyback ETA: the same tracker after spends of \<open>100\<cdot>10^18\<close> fifteen minutes and
  \<open>50\<cdot>10^18\<close> five minutes before the clock reads \<open>2000000\<close>.\<close>

definition eta_tracker :: BuybackTracker where
  "eta_tracker =
     recordSpent (recordSpent stall_tracker 1100000 (100 * 10 ^ 18) ''0xa1'')
       1700000 (50 * 10 ^ 18) ''0xb2''"

text \<open>A tracker with budget \<open>100\<cdot>10^18\<close> after one spend of \<open>150\<cdot>10^18\<close>.\<close>

definition overspent_tracker :: BuybackTracker where
  "overspent_tracker =
     recordSpent (new_BuybackTracker 20 5 (100 * 10 ^ 18)) 1100000 (150 * 10 ^ 18) ''0xc3''"

text \<open>The spends of a run carry amounts that are not negative (they are \<open>uint256\<close> values
  of \<open>Transfer\<close> events).\<close>

fun nonneg_spends :: "BuybackCall list \<Rightarrow> bool" where
  "nonneg_spends [] = True"
| "nonneg_spends (RecordSpent now amt hash # cs) = (0 \<le> amt \<and> nonneg_spends cs)"
| "nonneg_spends (CheckStall now # cs) = nonneg_spends cs"

text \<open>The time of a call, and the spend records a run has recorded, in order.\<close>

fun call_time :: "BuybackCall \<Rightarrow> int" where
  "call_time (RecordSpent now amt hash) = now"
| "call_time (CheckStall now) = now"

fun spend_records :: "BuybackCall list \<Rightarrow> SpentRecord list" where
  "spend_records [] = []"
| "spend_records (RecordSpent now amt hash # cs) =
     \<lparr>time = now, amount = amt, spent_txHash = hash\<rparr> # spend_records cs"
| "spend_records (CheckStall now # cs) = spend_records cs"

text \<open>A record lies in the rate window of \<open>rw\<close> minutes that ends at \<open>now\<close>.\<close>

definition in_window :: "rat \<Rightarrow> int \<Rightarrow> SpentRecord \<Rightarrow> bool" where
  "in_window rw now h = (of_int (time h) \<ge> of_int now - rw * 60 * 1000)"

text \<open>A machine that enters the buyback phase with a tax total of zero, and an outside
  world in which the push connection comes up.\<close>

definition example_agent :: VirtualsAgent where
  "example_agent =
     \<lparr>agent_id = 7, name = ''Orion'', symbol = ''ORION'', status = UNDERGRAD,
      preTokenPair = Some ''0xcurve'', lpAddress = None, lpCreatedAt = None,
      launchedAt = Some ''2026-01-01T00:00:00.000Z''\<rparr>"

definition zero_budget_machine :: StateMachine where
  "zero_budget_machine =
     \<lparr>state = BUYBACK_PHASE, project = Some example_agent, context_taxTotal = 0,
      context_startBalance = Some 0, lastBuybackUpdate = None,
      lastProjectStatusCheck = None, buybackTracker = None\<rparr>"

definition calm_env :: BuybackEnv where
  "calm_env =
     \<lparr>connectResult = Inr (), tick_now = 1800000, projectById = Inr (Some example_agent),
      sendBuybackStatus = Inr ()\<rparr>"

section \<open>Upcoming launches: what the merge keeps\<close>

text \<open>The last agent of a list that carries the id \<open>i\<close>, if any.\<close>

definition lastOfId :: "VirtualsAgent list \<Rightarrow> int \<Rightarrow> VirtualsAgent option" where
  "lastOfId merged i = find (\<lambda>b. agent_id b = i) (rev merged)"

text \<open>Two catalog records of the same agent (id 7), one returned by the first factory
  query and a newer one returned by the second, and a \<open>Date.parse\<close> that knows their
  launch time.\<close>

definition pending_first :: VirtualsAgent where
  "pending_first =
     \<lparr>agent_id = 7, name = ''Orion'', symbol = ''ORION'', status = INITIALIZED,
      preTokenPair = Some ''0xcurve'', lpAddress = None, lpCreatedAt = None,
      launchedAt = Some ''2026-01-01T00:00:00.000Z''\<rparr>"

definition pending_second :: VirtualsAgent where
  "pending_second = pending_first\<lparr>name := ''Orion (renamed)''\<rparr>"

definition example_dateParse :: "string \<Rightarrow> int option" where
  "example_dateParse s =
     (if s = ''2026-01-01T00:00:00.000Z'' then Some 1767225600000 else None)"

section \<open>Whale trades (claims C1 and C6)\<close>




lemma lru_set_maxSize: "maxSize (lru_set c k v) = maxSize c"
  by (simp add: lru_set_def Let_def)








text \<open>
  Claim C1, counterexample. On a freshly started monitor an AMM-v2 swap that pays 1500 base
  tokens into the pool (base token is token0, threshold 1000) is emitted as \<open>SELL\<close>, and in
  curve mode a transfer of 1500 base tokens with \<open>to\<close> equal to the pool is emitted as
  \<open>SELL\<close>; the claim has \<open>buy\<close> for both.
\<close>

theorem C1_direction_counterexample:
  "emitted_trades swap_monitor [(1, swap_in)] =
     [\<lparr>direction = SELL, amountVirtual = 1500 * 10 ^ 18, amountToken = 7 * 10 ^ 18,
       trader = ''0xrouter'', txHash = None, blockNumber = None, timestamp = 1\<rparr>]
   \<and> emitted_trades curve_monitor [(3, transfer_in)] =
     [\<lparr>direction = SELL, amountVirtual = 1500 * 10 ^ 18, amountToken = 0,
       trader = ''0xalice'', txHash = None, blockNumber = None, timestamp = 3\<rparr>]"
  by (simp add: emitted_trades_def swap_monitor_def curve_monitor_def swap_in_def
      transfer_in_def whale_start_def new_WhaleTrades_def new_LRUCache_def handleSwap_def
      handleTransfer_def payload_transactionHash_def payload_blockNumber_def lru_has_def
      map_has_def Let_def toLowerCase_def toLowerChar_def)

text \<open>
  Claim C1, as amended. Whenever the detector emits a trade for a delivered \<open>Swap\<close> event,
  the absolute base-token delta \<open>dV\<close> (amount-in minus amount-out on the base-token side)
  meets the threshold, the trade's amount is \<open>\<bar>dV\<bar>\<close>, and its direction is \<open>SELL\<close> exactly when
  \<open>dV\<close> is positive and \<open>BUY\<close> otherwise. Whenever it emits a trade for a delivered
  base-token \<open>Transfer\<close>, the transfer meets the threshold and touches the pool, and the
  direction is \<open>BUY\<close> exactly when \<open>from\<close> is the pool and \<open>SELL\<close> otherwise (when only \<open>to\<close> is
  the pool). On a monitor whose dedup cache is empty and whose callback is registered,
  every swap whose absolute delta meets the threshold, and every transfer that touches
  the pool and meets the threshold, is emitted. Addresses are compared in lower case.
\<close>

theorem C1_directions_as_coded:
  "(fst (handleEvent w (now, Swap sender a0In a1In a0Out a1Out to event)) = Some t
      \<and> dV = (if virtualIsToken0 w then a0In - a0Out else a1In - a1Out)
    \<longrightarrow> threshold w \<le> \<bar>dV\<bar> \<and> amountVirtual t = \<bar>dV\<bar>
        \<and> (direction t = SELL \<longleftrightarrow> 0 < dV) \<and> (direction t = BUY \<longleftrightarrow> dV \<le> 0))
   \<and> (fst (handleEvent w (now, Transfer from to val event)) = Some t
    \<longrightarrow> threshold w \<le> val \<and> amountVirtual t = val
        \<and> (toLowerCase from = toLowerCase (poolAddress w)
             \<or> toLowerCase to = toLowerCase (poolAddress w))
        \<and> (direction t = BUY \<longleftrightarrow> toLowerCase from = toLowerCase (poolAddress w))
        \<and> (direction t = SELL \<longleftrightarrow> toLowerCase from \<noteq> toLowerCase (poolAddress w)))
   \<and> (cache (lruCache w) = [] \<and> onWhaleTrade w
      \<and> threshold w \<le> \<bar>if virtualIsToken0 w then a0In - a0Out else a1In - a1Out\<bar>
    \<longrightarrow> fst (handleEvent w (now, Swap sender a0In a1In a0Out a1Out to event)) \<noteq> None)
   \<and> (cache (lruCache w) = [] \<and> onWhaleTrade w \<and> threshold w \<le> val
      \<and> (toLowerCase from = toLowerCase (poolAddress w)
           \<or> toLowerCase to = toLowerCase (poolAddress w))
    \<longrightarrow> fst (handleEvent w (now, Transfer from to val event)) \<noteq> None)"
proof -
  have a: "fst (handleEvent w (now, Swap sender a0In a1In a0Out a1Out to event)) = Some t
      \<and> dV = (if virtualIsToken0 w then a0In - a0Out else a1In - a1Out)
    \<longrightarrow> threshold w \<le> \<bar>dV\<bar> \<and> amountVirtual t = \<bar>dV\<bar>
        \<and> (direction t = SELL \<longleftrightarrow> 0 < dV) \<and> (direction t = BUY \<longleftrightarrow> dV \<le> 0)"
  proof (cases "lru_has (lruCache w) (payload_transactionHash event)")
    case True
    then show ?thesis by (simp add: handleSwap_def)
  next
    case False
    show ?thesis
    proof (cases "\<bar>if virtualIsToken0 w then a0In - a0Out else a1In - a1Out\<bar> < threshold w")
      case True
      then show ?thesis using False by (simp add: handleSwap_def Let_def abs_if)
    next
      case ge: False
      show ?thesis
      proof (cases "onWhaleTrade w")
        case True
        then show ?thesis using False ge by (auto simp: handleSwap_def Let_def abs_if)
      next
        case off: False
        then show ?thesis using False ge by (simp add: handleSwap_def Let_def abs_if)
      qed
    qed
  qed
  have b: "fst (handleEvent w (now, Transfer from to val event)) = Some t
    \<longrightarrow> threshold w \<le> val \<and> amountVirtual t = val
        \<and> (toLowerCase from = toLowerCase (poolAddress w)
             \<or> toLowerCase to = toLowerCase (poolAddress w))
        \<and> (direction t = BUY \<longleftrightarrow> toLowerCase from = toLowerCase (poolAddress w))
        \<and> (direction t = SELL \<longleftrightarrow> toLowerCase from \<noteq> toLowerCase (poolAddress w))"
  proof (cases "toLowerCase from \<noteq> toLowerCase (poolAddress w)
                \<and> toLowerCase to \<noteq> toLowerCase (poolAddress w)")
    case True
    then show ?thesis by (simp add: handleTransfer_def Let_def)
  next
    case touches: False
    show ?thesis
    proof (cases "lru_has (lruCache w) (payload_transactionHash event) \<or> val < threshold w
                  \<or> \<not> onWhaleTrade w")
      case True
      then show ?thesis using touches by (auto simp: handleTransfer_def Let_def)
    next
      case False
      then show ?thesis using touches by (auto simp: handleTransfer_def Let_def)
    qed
  qed
  have empty: "cache (lruCache w) = [] \<Longrightarrow> \<not> lru_has (lruCache w) k" for k
    by (simp add: lru_has_def map_has_def)
  have c: "cache (lruCache w) = [] \<and> onWhaleTrade w
      \<and> threshold w \<le> \<bar>if virtualIsToken0 w then a0In - a0Out else a1In - a1Out\<bar>
    \<longrightarrow> fst (handleEvent w (now, Swap sender a0In a1In a0Out a1Out to event)) \<noteq> None"
    using empty by (simp add: handleSwap_def Let_def abs_if)
  have d: "cache (lruCache w) = [] \<and> onWhaleTrade w \<and> threshold w \<le> val
      \<and> (toLowerCase from = toLowerCase (poolAddress w)
           \<or> toLowerCase to = toLowerCase (poolAddress w))
    \<longrightarrow> fst (handleEvent w (now, Transfer from to val event)) \<noteq> None"
    using empty by (auto simp: handleTransfer_def Let_def)
  show ?thesis using a b c d by blast
qed

text \<open>On freshly started monitors: a swap that takes 1200 base tokens out of the pool and
  a transfer of 1200 base tokens out of the pool are emitted as \<open>BUY\<close>, and the swap and the
  transfer that pay into the pool are emitted as well.\<close>

theorem C1_directions_witness:
  "fst (handleEvent swap_monitor (2, swap_out)) =
     Some \<lparr>direction = BUY, amountVirtual = 1200 * 10 ^ 18, amountToken = 6 * 10 ^ 18,
           trader = ''0xrouter'', txHash = None, blockNumber = None, timestamp = 2\<rparr>
   \<and> fst (handleEvent curve_monitor (4, transfer_out)) =
     Some \<lparr>direction = BUY, amountVirtual = 1200 * 10 ^ 18, amountToken = 0,
           trader = ''0xbob'', txHash = None, blockNumber = None, timestamp = 4\<rparr>
   \<and> fst (handleEvent swap_monitor (1, swap_in)) \<noteq> None
   \<and> fst (handleEvent curve_monitor (3, transfer_in)) \<noteq> None"
proof -
  have s: "fst (handleEvent swap_monitor (2, swap_out)) =
     Some \<lparr>direction = BUY, amountVirtual = 1200 * 10 ^ 18, amountToken = 6 * 10 ^ 18,
           trader = ''0xrouter'', txHash = None, blockNumber = None, timestamp = 2\<rparr>"
    by (simp add: swap_monitor_def swap_out_def whale_start_def new_WhaleTrades_def
        new_LRUCache_def handleSwap_def payload_transactionHash_def payload_blockNumber_def
        lru_has_def map_has_def Let_def)
  have c: "fst (handleEvent curve_monitor (4, transfer_out)) =
     Some \<lparr>direction = BUY, amountVirtual = 1200 * 10 ^ 18, amountToken = 0,
           trader = ''0xbob'', txHash = None, blockNumber = None, timestamp = 4\<rparr>"
    by (simp add: curve_monitor_def transfer_out_def whale_start_def new_WhaleTrades_def
        new_LRUCache_def handleTransfer_def payload_transactionHash_def payload_blockNumber_def
        lru_has_def map_has_def Let_def toLowerCase_def toLowerChar_def)
  have m: "cache (lruCache swap_monitor) = []" "onWhaleTrade swap_monitor"
    "virtualIsToken0 swap_monitor" "threshold swap_monitor = 1000 * 10 ^ 18"
    "cache (lruCache curve_monitor) = []" "onWhaleTrade curve_monitor"
    "threshold curve_monitor = 1000 * 10 ^ 18"
    "toLowerCase (poolAddress curve_monitor) = ''0xpool''"
    by (simp_all add: swap_monitor_def curve_monitor_def whale_start_def new_WhaleTrades_def
        new_LRUCache_def toLowerCase_def toLowerChar_def)
  have lp: "toLowerCase ''0xpool'' = ''0xpool''"
    by (simp add: toLowerCase_def toLowerChar_def)
  have i1: "fst (handleEvent swap_monitor (1, swap_in)) \<noteq> None"
    unfolding swap_in_def
    using C1_directions_as_coded[where w = swap_monitor and now = 1 and sender = "''0xrouter''"
        and ?a0In = "1500 * 10 ^ 18" and ?a1In = 0 and ?a0Out = 0 and ?a1Out = "7 * 10 ^ 18"
        and to = "''0xalice''"
        and event = "\<lparr>event_log = \<lparr>log_transactionHash = ''0xaaa'', log_blockNumber = 101\<rparr>\<rparr>",
        THEN conjunct2, THEN conjunct2, THEN conjunct1] m
    by simp
  have i2: "fst (handleEvent curve_monitor (3, transfer_in)) \<noteq> None"
    unfolding transfer_in_def
    using C1_directions_as_coded[where w = curve_monitor and now = 3 and ?from = "''0xalice''"
        and to = "''0xpool''" and val = "1500 * 10 ^ 18"
        and event = "\<lparr>event_log = \<lparr>log_transactionHash = ''0xccc'', log_blockNumber = 103\<rparr>\<rparr>",
        THEN conjunct2, THEN conjunct2, THEN conjunct2] m lp
    by simp
  show ?thesis using s c i1 i2 by blast
qed
section \<open>Tax tracker: accounting over successful updates (claim C3)\<close>

lemma sumTransfers_sums:
  "sumTransfers a ls (i, out) =
     (i + sum_list (map (inflowOf a) ls), out + sum_list (map (outflowOf a) ls))"
  by (induction ls arbitrary: i out)
     (auto simp: inflowOf_def outflowOf_def split: option.splits)

lemma update_success_step:
  assumes "\<not> isl (fst (update net pool t))"
  shows "inflow (accumulated (snd (snd (update net pool t)))) =
           inflow (accumulated t) + sum_list (map (inflowOf (buybackAddr t)) (queried net (pool, t)))"
    and "outflow (accumulated (snd (snd (update net pool t)))) =
           outflow (accumulated t) + sum_list (map (outflowOf (buybackAddr t)) (queried net (pool, t)))"
    and "netInflow (accumulated t) = inflow (accumulated t) - outflow (accumulated t) \<Longrightarrow>
         netInflow (accumulated (snd (snd (update net pool t)))) =
           inflow (accumulated (snd (snd (update net pool t))))
           - outflow (accumulated (snd (snd (update net pool t))))"
    and "buybackAddr (snd (snd (update net pool t))) = buybackAddr t"
  using assms
  by (auto simp: update_def queried_def update_failed_def Let_def sumTransfers_sums
      split: sum.splits if_splits)

lemma updates_success:
  "all_succeed nets s \<Longrightarrow>
   netInflow (accumulated (snd s)) = inflow (accumulated (snd s)) - outflow (accumulated (snd s)) \<Longrightarrow>
   inflow (accumulated (snd (updates nets s))) =
     inflow (accumulated (snd s)) + sum_list (map (inflowOf (buybackAddr (snd s))) (processed nets s))
   \<and> outflow (accumulated (snd (updates nets s))) =
     outflow (accumulated (snd s)) + sum_list (map (outflowOf (buybackAddr (snd s))) (processed nets s))
   \<and> netInflow (accumulated (snd (updates nets s))) =
     inflow (accumulated (snd (updates nets s))) - outflow (accumulated (snd (updates nets s)))"
proof (induction nets arbitrary: s)
  case Nil
  then show ?case by simp
next
  case (Cons net nets)
  obtain pool t where s: "s = (pool, t)" by (cases s)
  let ?s' = "snd (update net pool t)"
  have ok: "\<not> isl (fst (update net pool t))" and rest: "all_succeed nets ?s'"
    using Cons.prems(1) s by auto
  note step = update_success_step[OF ok]
  have inv: "netInflow (accumulated (snd ?s')) =
      inflow (accumulated (snd ?s')) - outflow (accumulated (snd ?s'))"
    using step(3) Cons.prems(2) s by simp
  note IH = Cons.IH[OF rest inv]
  show ?case using IH step(1,2,4) s by simp
qed


text \<open>
  Claim C3. Take a tracker whose counters are zero (as the constructor and \<open>init\<close> leave
  them) and any sequence of \<open>update\<close> calls that all return normally. Then the cumulative
  inflow is the sum of the values of the processed logs with \<open>to\<close> equal to the receiver,
  the cumulative outflow the sum of those with \<open>from\<close> equal to the receiver, and
  \<open>netInflow = inflow - outflow\<close> is the signed sum over the processed logs; since this
  holds for every sequence, it holds after every prefix. One log adds its value to the
  inflow when \<open>to\<close> is the receiver and to the outflow when \<open>from\<close> is the receiver; a
  self-transfer is counted in both and contributes zero to the net.
\<close>

theorem C3_net_inflow_is_signed_sum:
  "all_succeed nets (pool, t) \<Longrightarrow>
   inflow (accumulated t) = 0 \<Longrightarrow> outflow (accumulated t) = 0 \<Longrightarrow>
   netInflow (accumulated t) = 0 \<Longrightarrow>
   inflow (accumulated (snd (updates nets (pool, t)))) =
     sum_list (map (inflowOf (buybackAddr t)) (processed nets (pool, t)))
   \<and> outflow (accumulated (snd (updates nets (pool, t)))) =
     sum_list (map (outflowOf (buybackAddr t)) (processed nets (pool, t)))
   \<and> netInflow (accumulated (snd (updates nets (pool, t)))) =
     inflow (accumulated (snd (updates nets (pool, t))))
     - outflow (accumulated (snd (updates nets (pool, t))))
   \<and> netInflow (accumulated (snd (updates nets (pool, t)))) =
     sum_list (map (\<lambda>l. inflowOf (buybackAddr t) l - outflowOf (buybackAddr t) l)
                 (processed nets (pool, t)))
   \<and> (\<forall>from to val i out.
         sumTransfers (buybackAddr t) [\<lparr>args = Some (from, to, val)\<rparr>] (i, out) =
           (if toLowerCase to = buybackAddr t then i + val else i,
            if toLowerCase from = buybackAddr t then out + val else out))
   \<and> (\<forall>from to val.
         toLowerCase from = buybackAddr t \<and> toLowerCase to = buybackAddr t \<longrightarrow>
         inflowOf (buybackAddr t) \<lparr>args = Some (from, to, val)\<rparr>
           - outflowOf (buybackAddr t) \<lparr>args = Some (from, to, val)\<rparr> = 0)"
proof -
  assume ok: "all_succeed nets (pool, t)"
    and z: "inflow (accumulated t) = 0" "outflow (accumulated t) = 0" "netInflow (accumulated t) = 0"
  have inv: "netInflow (accumulated (snd (pool, t))) =
      inflow (accumulated (snd (pool, t))) - outflow (accumulated (snd (pool, t)))"
    using z by simp
  note seq = updates_success[OF ok inv]
  have a: "inflow (accumulated (snd (updates nets (pool, t)))) =
     sum_list (map (inflowOf (buybackAddr t)) (processed nets (pool, t)))"
    using seq z by simp
  have b: "outflow (accumulated (snd (updates nets (pool, t)))) =
     sum_list (map (outflowOf (buybackAddr t)) (processed nets (pool, t)))"
    using seq z by simp
  have c: "netInflow (accumulated (snd (updates nets (pool, t)))) =
     inflow (accumulated (snd (updates nets (pool, t))))
     - outflow (accumulated (snd (updates nets (pool, t))))"
    using seq by simp
  have d: "netInflow (accumulated (snd (updates nets (pool, t)))) =
     sum_list (map (\<lambda>l. inflowOf (buybackAddr t) l - outflowOf (buybackAddr t) l)
                 (processed nets (pool, t)))"
    using a b c by (simp add: sum_list_subtractf)
  have e: "\<forall>from to val i out.
         sumTransfers (buybackAddr t) [\<lparr>args = Some (from, to, val)\<rparr>] (i, out) =
           (if toLowerCase to = buybackAddr t then i + val else i,
            if toLowerCase from = buybackAddr t then out + val else out)"
    by simp
  have f: "\<forall>from to val.
         toLowerCase from = buybackAddr t \<and> toLowerCase to = buybackAddr t \<longrightarrow>
         inflowOf (buybackAddr t) \<lparr>args = Some (from, to, val)\<rparr>
           - outflowOf (buybackAddr t) \<lparr>args = Some (from, to, val)\<rparr> = 0"
    by (simp add: inflowOf_def outflowOf_def)
  show ?thesis using a b c d e f by blast
qed

lemma scenario_addr: "buybackAddr scenario_tracker = ''0xbuyback''"
  by (simp add: scenario_tracker_def new_TaxTracker_def toLowerCase_def toLowerChar_def)

lemma scenario_update:
  "update scenario_net scenario_pool scenario_tracker =
     (Inr \<lparr>inflow = 250 * 10 ^ 18, outflow = 30 * 10 ^ 18, netInflow = 220 * 10 ^ 18,
           balanceDiff = 220 * 10 ^ 18, delta = 0\<rparr>,
      scenario_pool,
      scenario_tracker\<lparr>accumulated :=
          \<lparr>inflow = 250 * 10 ^ 18, outflow = 30 * 10 ^ 18, netInflow = 220 * 10 ^ 18,
           balanceDiff = 220 * 10 ^ 18, delta = 0\<rparr>,
        lastProcessedBlock := 5100\<rparr>)"
  by (simp add: update_def scenario_net_def scenario_endpoint_def scenario_pool_def
      scenario_tracker_def new_TaxTracker_def scenario_logs_def Let_def
      toLowerCase_def toLowerChar_def)

text \<open>The tax-accounting scenario: inflows of \<open>200\<cdot>10^18\<close> and \<open>50\<cdot>10^18\<close> and one outflow of
  \<open>30\<cdot>10^18\<close> give inflow \<open>250\<cdot>10^18\<close>, outflow \<open>30\<cdot>10^18\<close> and net inflow \<open>220\<cdot>10^18\<close>.\<close>

theorem C3_scenario_witness:
  "all_succeed [scenario_net] (scenario_pool, scenario_tracker)
   \<and> inflow (accumulated scenario_tracker) = 0 \<and> outflow (accumulated scenario_tracker) = 0
   \<and> netInflow (accumulated scenario_tracker) = 0
   \<and> processed [scenario_net] (scenario_pool, scenario_tracker) = scenario_logs
   \<and> inflow (accumulated (snd (updates [scenario_net] (scenario_pool, scenario_tracker)))) = 250 * 10 ^ 18
   \<and> outflow (accumulated (snd (updates [scenario_net] (scenario_pool, scenario_tracker)))) = 30 * 10 ^ 18
   \<and> netInflow (accumulated (snd (updates [scenario_net] (scenario_pool, scenario_tracker)))) = 220 * 10 ^ 18"
proof -
  have ok: "all_succeed [scenario_net] (scenario_pool, scenario_tracker)"
    by (simp add: scenario_update)
  have z: "inflow (accumulated scenario_tracker) = 0" "outflow (accumulated scenario_tracker) = 0"
    "netInflow (accumulated scenario_tracker) = 0"
    by (simp_all add: scenario_tracker_def new_TaxTracker_def)
  have p: "processed [scenario_net] (scenario_pool, scenario_tracker) = scenario_logs"
    by (simp add: queried_def scenario_net_def scenario_endpoint_def scenario_pool_def
        scenario_tracker_def new_TaxTracker_def)
  have sums: "sum_list (map (inflowOf ''0xbuyback'') scenario_logs) = 250 * 10 ^ 18"
    "sum_list (map (outflowOf ''0xbuyback'') scenario_logs) = 30 * 10 ^ 18"
    by (simp_all add: scenario_logs_def inflowOf_def outflowOf_def toLowerCase_def toLowerChar_def)
  show ?thesis
    using C3_net_inflow_is_signed_sum[OF ok z] ok z p sums by (simp add: scenario_addr)
qed

section \<open>Tax tracker: a failing update (claim C2)\<close>

text \<open>What every failing \<open>update\<close> does: it rotates the pool, rebinds the contract to the
  new active provider and leaves \<open>lastProcessedBlock\<close> alone. When the block-number read
  throws, or the log query throws or returns nothing, the counters are unchanged too.\<close>

lemma update_failure_effects:
  assumes "isl (fst (update net pool t))"
  shows "fst (snd (update net pool t)) = rotateHttp pool"
    and "virtualToken (snd (snd (update net pool t))) = currentHttpIndex (rotateHttp pool)"
    and "lastProcessedBlock (snd (snd (update net pool t))) = lastProcessedBlock t"
    and "isl (getBlockNumber (net (currentHttpIndex pool))) \<Longrightarrow>
         accumulated (snd (snd (update net pool t))) = accumulated t"
    and "queried net (pool, t) = [] \<Longrightarrow>
         inflow (accumulated (snd (snd (update net pool t)))) = inflow (accumulated t)
         \<and> outflow (accumulated (snd (snd (update net pool t)))) = outflow (accumulated t)"
  using assms
  by (auto simp: update_def update_failed_def queried_def Let_def split: sum.splits if_splits)

lemma flaky_update:
  "update flaky_net scenario_pool scenario_tracker =
     (Inl (Exn ''balanceOf: timeout''),
      \<lparr>httpProviders = 2, currentHttpIndex = 1\<rparr>,
      scenario_tracker\<lparr>accumulated :=
          \<lparr>inflow = 250 * 10 ^ 18, outflow = 30 * 10 ^ 18, netInflow = 220 * 10 ^ 18,
           balanceDiff = 0, delta = 0\<rparr>,
        virtualToken := 1\<rparr>)"
  by (simp add: update_def update_failed_def rotateHttp_def flaky_net_def scenario_endpoint_def
      scenario_pool_def scenario_tracker_def new_TaxTracker_def scenario_logs_def Let_def
      toLowerCase_def toLowerChar_def)

text \<open>
  Claim C2, the defect. \<open>update\<close> adds the deltas of the queried range to the cumulative
  counters before it reads the balance; when that read throws, the \<open>catch\<close> block rotates,
  rebinds and rethrows, but the counters keep the added deltas while
  \<open>lastProcessedBlock\<close> stays where it was. The retry queries the same range again and
  adds the same logs a second time: in the scenario the failed call leaves inflow
  \<open>250\<cdot>10^18\<close> (not \<open>0\<close>), and after the successful retry the inflow is \<open>500\<cdot>10^18\<close> although
  the logs in \<open>(blockStart, lastProcessedBlock]\<close> sum to \<open>250\<cdot>10^18\<close>.
\<close>

theorem C2_failed_balance_read_double_counts:
  "fst (update flaky_net scenario_pool scenario_tracker) = Inl (Exn ''balanceOf: timeout'')
   \<and> inflow (accumulated scenario_tracker) = 0
   \<and> inflow (accumulated (snd (snd (update flaky_net scenario_pool scenario_tracker)))) = 250 * 10 ^ 18
   \<and> outflow (accumulated (snd (snd (update flaky_net scenario_pool scenario_tracker)))) = 30 * 10 ^ 18
   \<and> lastProcessedBlock (snd (snd (update flaky_net scenario_pool scenario_tracker))) = 5000
   \<and> fst (update scenario_net (fst (snd (update flaky_net scenario_pool scenario_tracker)))
              (snd (snd (update flaky_net scenario_pool scenario_tracker))))
       = Inr \<lparr>inflow = 500 * 10 ^ 18, outflow = 60 * 10 ^ 18, netInflow = 440 * 10 ^ 18,
              balanceDiff = 220 * 10 ^ 18, delta = - (220 * 10 ^ 18)\<rparr>
   \<and> lastProcessedBlock (snd (updates [flaky_net, scenario_net] (scenario_pool, scenario_tracker))) = 5100
   \<and> inflow (accumulated (snd (updates [flaky_net, scenario_net] (scenario_pool, scenario_tracker))))
       = 500 * 10 ^ 18
   \<and> sum_list (map (inflowOf ''0xbuyback'') scenario_logs) = 250 * 10 ^ 18"
  apply (simp only: updates.simps fst_conv snd_conv flaky_update)
  apply (simp add: update_def scenario_net_def
      scenario_endpoint_def scenario_tracker_def new_TaxTracker_def
      scenario_logs_def Let_def inflowOf_def toLowerCase_def toLowerChar_def)
  done

section \<open>Tax tracker: the last processed block (claim C5)\<close>

lemma bsearch_bounds:
  "lo \<le> hi \<Longrightarrow> bsearch p tt lo hi = Inr b \<Longrightarrow> lo \<le> b \<and> b \<le> hi"
proof (induction p tt lo hi rule: bsearch.induct)
  case (1 provider targetTime lo hi)
  show ?case
  proof (cases "lo < hi")
    case False
    then show ?thesis using "1.prems" by (simp add: bsearch.simps[of provider targetTime lo hi])
  next
    case True
    let ?mid = "(lo + hi) div 2"
    have mid: "lo \<le> ?mid" "?mid < hi" using True by auto
    show ?thesis
    proof (cases "getBlock provider ?mid")
      case (Inl e)
      then show ?thesis using "1.prems" True by (simp add: bsearch.simps[of provider targetTime lo hi])
    next
      case (Inr ob)
      show ?thesis
      proof (cases ob)
        case None
        then show ?thesis using "1.prems" True Inr
          by (simp add: bsearch.simps[of provider targetTime lo hi])
      next
        case (Some block)
        show ?thesis
        proof (cases "block_timestamp block * 1000 < targetTime")
          case lt: True
          then have "bsearch provider targetTime (?mid + 1) hi = Inr b"
            using "1.prems" True Inr Some by (simp add: bsearch.simps[of provider targetTime lo hi])
          then have "?mid + 1 \<le> b \<and> b \<le> hi"
            using "1.IH"(1)[OF True Inr Some lt] mid by simp
          then show ?thesis using mid by simp
        next
          case ge: False
          then have "bsearch provider targetTime lo ?mid = Inr b"
            using "1.prems" True Inr Some by (simp add: bsearch.simps[of provider targetTime lo hi])
          then have "lo \<le> b \<and> b \<le> ?mid"
            using "1.IH"(2)[OF True Inr Some ge] mid by simp
          then show ?thesis using mid by simp
        qed
      qed
    qed
  qed
qed

lemma timeToBlock_bounds:
  assumes "timeToBlock p ts = Inr b" "getBlockLatest p = Inr (Some L)" "0 \<le> block_number L"
  shows "0 \<le> b \<and> b \<le> block_number L"
proof (cases "ts \<ge> block_timestamp L * 1000")
  case True
  then show ?thesis using assms by (simp add: timeToBlock_def Let_def)
next
  case False
  let ?target = "max 0 (block_number L - (block_timestamp L * 1000 - ts) div 2000)"
  let ?lo = "max 0 (?target - 500)"
  let ?hi = "min (block_number L) (?target + 500)"
  have diff: "0 \<le> (block_timestamp L * 1000 - ts) div 2000" using False by simp
  have tl: "?target \<le> block_number L" using diff assms(3) by simp
  have le: "?lo \<le> ?hi" using tl assms(3) by simp
  have "bsearch p ts ?lo ?hi = Inr b"
    using assms(1,2) False by (simp add: timeToBlock_def Let_def)
  then have "?lo \<le> b \<and> b \<le> ?hi" using bsearch_bounds[OF le] by blast
  then show ?thesis by simp
qed

lemma tax_init_bounds:
  assumes "tax_init net pool t t0 = Inr t1"
    "getBlockLatest (net (currentHttpIndex pool)) = Inr (Some L)" "0 \<le> block_number L"
  shows "blockStart t1 = lastProcessedBlock t1 \<and> 0 \<le> blockStart t1 \<and> blockStart t1 \<le> block_number L"
proof -
  obtain b where b: "timeToBlock (net (currentHttpIndex pool)) t0 = Inr b"
    and t1: "blockStart t1 = b" "lastProcessedBlock t1 = b"
    using assms(1) by (auto simp: tax_init_def Let_def split: sum.splits)
  show ?thesis using timeToBlock_bounds[OF b assms(2,3)] t1 by simp
qed

lemma update_step_progress:
  "lastProcessedBlock t \<le> lastProcessedBlock (snd (snd (update net pool t)))
   \<and> blockStart (snd (snd (update net pool t))) = blockStart t
   \<and> (\<forall>h. (\<forall>k n. getBlockNumber (net k) = Inr n \<longrightarrow> n \<le> h) \<longrightarrow> lastProcessedBlock t \<le> h \<longrightarrow>
          lastProcessedBlock (snd (snd (update net pool t))) \<le> h)"
  by (auto simp: update_def update_failed_def Let_def min_le_iff_disj split: sum.splits)

lemma trace_invariant:
  "list_all2 (\<lambda>net h. \<forall>k n. getBlockNumber (net k) = Inr n \<longrightarrow> n \<le> h) nets hs \<Longrightarrow>
   sorted (h0 # hs) \<Longrightarrow> lastProcessedBlock (snd s) \<le> h0 \<Longrightarrow>
   b \<le> lastProcessedBlock (snd s) \<Longrightarrow> blockStart (snd s) = b \<Longrightarrow>
   sorted (map (lastProcessedBlock \<circ> snd) (s # update_trace nets s))
   \<and> (\<forall>s' \<in> set (update_trace nets s).
         blockStart (snd s') = b \<and> b \<le> lastProcessedBlock (snd s'))
   \<and> list_all2 (\<lambda>s' h. lastProcessedBlock (snd s') \<le> h) (update_trace nets s) hs"
proof (induction nets hs arbitrary: s h0 rule: list_all2_induct)
  case Nil
  then show ?case by simp
next
  case (Cons net nets h hs)
  obtain pool t where s: "s = (pool, t)" by (cases s)
  let ?s' = "snd (update net pool t)"
  note step = update_step_progress[of t net pool]
  have h0h: "h0 \<le> h" and sorted': "sorted (h # hs)" using Cons.prems(1) by auto
  have up: "lastProcessedBlock t \<le> lastProcessedBlock (snd ?s')"
    and bs: "blockStart (snd ?s') = b"
    using step Cons.prems(4) s by auto
  have le: "lastProcessedBlock (snd ?s') \<le> h"
    using step Cons.hyps(1) Cons.prems(2) h0h s by auto
  have bl: "b \<le> lastProcessedBlock (snd ?s')" using up Cons.prems(3) s by simp
  note IH = Cons.IH[OF sorted' le bl bs]
  have tr: "update_trace (net # nets) s = ?s' # update_trace nets ?s'"
    by (simp add: s Let_def)
  show ?case unfolding tr using IH up le bl bs s by fastforce
qed


text \<open>
  Claim C5. Let \<open>init\<close> succeed on a chain whose latest block \<open>L\<close> has a non-negative
  number, and let any sequence of \<open>update\<close> calls follow, each returning normally or
  throwing. Let \<open>h0\<close> be the chain's height at \<open>init\<close> and \<open>hs\<close> its height at each update,
  non-decreasing, and let no endpoint report a block number above the height of the chain
  at that time. Then \<open>lastProcessedBlock\<close> starts at the start block computed by \<open>init\<close>, is
  non-decreasing along the sequence, is never below the start block (which the updates
  leave unchanged), and after every update is at most the chain's height at that update.
\<close>

theorem C5_lastProcessedBlock_monotone_bounded:
  assumes "tax_init net0 pool t t0 = Inr t1"
    and "getBlockLatest (net0 (currentHttpIndex pool)) = Inr (Some L)"
    and "0 \<le> block_number L" and "block_number L \<le> h0"
    and "sorted (h0 # hs)"
    and "list_all2 (\<lambda>net h. \<forall>k n. getBlockNumber (net k) = Inr n \<longrightarrow> n \<le> h) nets hs"
  shows "lastProcessedBlock t1 = blockStart t1 \<and> lastProcessedBlock t1 \<le> h0
    \<and> sorted (map (lastProcessedBlock \<circ> snd) ((pool, t1) # update_trace nets (pool, t1)))
    \<and> (\<forall>s \<in> set (update_trace nets (pool, t1)).
          blockStart (snd s) = blockStart t1 \<and> blockStart t1 \<le> lastProcessedBlock (snd s))
    \<and> list_all2 (\<lambda>s h. lastProcessedBlock (snd s) \<le> h) (update_trace nets (pool, t1)) hs"
proof -
  have i: "blockStart t1 = lastProcessedBlock t1" "blockStart t1 \<le> block_number L"
    using tax_init_bounds[OF assms(1,2,3)] by simp_all
  have le: "lastProcessedBlock (snd (pool, t1)) \<le> h0" using i assms(4) by simp
  have bl: "blockStart t1 \<le> lastProcessedBlock (snd (pool, t1))" using i by simp
  have bs: "blockStart (snd (pool, t1)) = blockStart t1" by simp
  show ?thesis
    using trace_invariant[OF assms(6) assms(5) le bl bs] i le by simp
qed

lemma scenario_init:
  "tax_init scenario_net scenario_pool (new_TaxTracker scenario_pool ''0xBuyBack'') 1700000000000
     = Inr scenario_tracker"
  by (simp add: tax_init_def timeToBlock_def scenario_net_def scenario_endpoint_def
      scenario_pool_def scenario_tracker_def new_TaxTracker_def Let_def)

text \<open>The scenario: \<open>init\<close> at block 5000 of a chain at height 5100, then an update whose
  balance read throws and one that succeeds.\<close>

theorem C5_scenario_witness:
  "tax_init scenario_net scenario_pool (new_TaxTracker scenario_pool ''0xBuyBack'') 1700000000000
     = Inr scenario_tracker
   \<and> sorted [5100, 5100, 5100 :: int]
   \<and> map (lastProcessedBlock \<circ> snd)
        ((scenario_pool, scenario_tracker)
         # update_trace [flaky_net, scenario_net] (scenario_pool, scenario_tracker))
       = [5000, 5000, 5100]
   \<and> map (blockStart \<circ> snd)
        (update_trace [flaky_net, scenario_net] (scenario_pool, scenario_tracker))
       = [5000, 5000]"
proof -
  have latest: "getBlockLatest (scenario_net (currentHttpIndex scenario_pool)) =
      Inr (Some \<lparr>block_number = 5100, block_timestamp = 1700000200\<rparr>)"
    by (simp add: scenario_net_def scenario_endpoint_def)
  have nn: "0 \<le> block_number \<lparr>block_number = 5100, block_timestamp = 1700000200\<rparr>"
    "block_number \<lparr>block_number = 5100, block_timestamp = 1700000200\<rparr> \<le> 5100"
    by simp_all
  have so: "sorted (5100 # [5100, 5100 :: int])" by simp
  have rep: "list_all2 (\<lambda>net h. \<forall>k n. getBlockNumber (net k) = Inr n \<longrightarrow> n \<le> h)
      [flaky_net, scenario_net] [5100, 5100]"
    by (simp add: flaky_net_def scenario_net_def scenario_endpoint_def)
  have tr: "map (lastProcessedBlock \<circ> snd)
        (update_trace [flaky_net, scenario_net] (scenario_pool, scenario_tracker)) = [5000, 5100]
      \<and> map (blockStart \<circ> snd)
        (update_trace [flaky_net, scenario_net] (scenario_pool, scenario_tracker)) = [5000, 5000]"
    apply (simp only: update_trace.simps Let_def fst_conv snd_conv flaky_update)
    apply (simp add: update_def scenario_net_def scenario_endpoint_def scenario_tracker_def
        new_TaxTracker_def scenario_logs_def Let_def toLowerCase_def toLowerChar_def)
    done
  have bs: "lastProcessedBlock scenario_tracker = 5000"
    by (simp add: scenario_tracker_def)
  show ?thesis
    using C5_lastProcessedBlock_monotone_bounded[OF scenario_init latest nn so rep]
      scenario_init bs tr by simp
qed

section \<open>Buyback tracker: stall detection (claim C7)\<close>

lemma checkStall_alerted:
  "stallAlerted t \<Longrightarrow> checkStall t now = (False, t)"
  by (simp add: checkStall_def)

lemma checkStall_fired:
  "fst (checkStall t now) \<Longrightarrow> stallAlerted (snd (checkStall t now))"
  by (simp add: checkStall_def split: if_splits)

lemma first_fire_after_spend:
  "stallAlerted t \<Longrightarrow> j < length cs \<Longrightarrow> stall_run t cs ! j \<Longrightarrow> \<exists>k<j. is_spend (cs ! k)"
proof (induction cs arbitrary: t j)
  case Nil
  then show ?case by simp
next
  case (Cons c cs)
  show ?case
  proof (cases c)
    case (RecordSpent now amt hash)
    then show ?thesis using Cons.prems by (cases j) auto
  next
    case (CheckStall now)
    then have st: "buyback_step t c = (False, t)" using Cons.prems(1) by (simp add: checkStall_alerted)
    then obtain j' where j: "j = Suc j'" using Cons.prems(3) by (cases j) auto
    then have "\<exists>k<j'. is_spend (cs ! k)" using Cons.IH[of t j'] Cons.prems st by simp
    then show ?thesis using j by auto
  qed
qed

lemma fires_separated_by_spend:
  "i < j \<Longrightarrow> j < length cs \<Longrightarrow> stall_run t cs ! i \<Longrightarrow> stall_run t cs ! j \<Longrightarrow>
   \<exists>k. i < k \<and> k < j \<and> is_spend (cs ! k)"
proof (induction cs arbitrary: t i j)
  case Nil
  then show ?case by simp
next
  case (Cons c cs)
  obtain j' where j: "j = Suc j'" using Cons.prems(1) by (cases j) auto
  show ?case
  proof (cases i)
    case 0
    then have fired: "fst (buyback_step t c)" using Cons.prems(3) by simp
    then obtain now where c: "c = CheckStall now" by (cases c) auto
    have al: "stallAlerted (snd (buyback_step t c))" using fired c by (simp add: checkStall_fired)
    have "\<exists>k<j'. is_spend (cs ! k)"
      using first_fire_after_spend[OF al, of j' cs] Cons.prems j by simp
    then show ?thesis using 0 j by auto
  next
    case (Suc i')
    then have "\<exists>k. i' < k \<and> k < j' \<and> is_spend (cs ! k)"
      using Cons.IH[of i' j' "snd (buyback_step t c)"] Cons.prems j by simp
    then show ?thesis using Suc j by auto
  qed
qed

text \<open>
  Claim C7. (1) \<open>checkStall\<close> invokes the stall callback only when \<open>spentTotal < taxTotal\<close>,
  \<open>lastSpentTime \<noteq> 0\<close> and \<open>now - lastSpentTime\<close> exceeds the stall alert (in milliseconds),
  the alerted flag is clear and a callback is registered. (2) In every run of spends and
  stall checks, between two calls that fire there is a recorded spend: the callback fires
  at most once until a spend. (3) A recorded spend clears the alerted flag, and (4) if the
  tracker is then stalled again, the next check fires and the check after it does not.
\<close>

theorem C7_stall_fires_once_until_spend:
  "(fst (checkStall t now) \<longrightarrow>
      spentTotal t < taxTotal t \<and> lastSpentTime t \<noteq> 0
      \<and> of_int (now - lastSpentTime t) > stallAlertMinutes t * 60 * 1000
      \<and> \<not> stallAlerted t \<and> onStall t)
   \<and> (\<forall>i j. i < j \<and> j < length cs \<and> stall_run t cs ! i \<and> stall_run t cs ! j \<longrightarrow>
         (\<exists>k. i < k \<and> k < j \<and> is_spend (cs ! k)))
   \<and> \<not> stallAlerted (recordSpent t now amt hash)
   \<and> (onStall t \<and> isStalled (recordSpent t now amt hash) now' \<longrightarrow>
         fst (checkStall (recordSpent t now amt hash) now')
         \<and> \<not> fst (checkStall (snd (checkStall (recordSpent t now amt hash) now')) now''))"
proof -
  have a: "fst (checkStall t now) \<longrightarrow>
      spentTotal t < taxTotal t \<and> lastSpentTime t \<noteq> 0
      \<and> of_int (now - lastSpentTime t) > stallAlertMinutes t * 60 * 1000
      \<and> \<not> stallAlerted t \<and> onStall t"
    by (auto simp: checkStall_def isStalled_def Let_def split: if_splits)
  have b: "\<forall>i j. i < j \<and> j < length cs \<and> stall_run t cs ! i \<and> stall_run t cs ! j \<longrightarrow>
         (\<exists>k. i < k \<and> k < j \<and> is_spend (cs ! k))"
    using fires_separated_by_spend by blast
  have c: "\<not> stallAlerted (recordSpent t now amt hash)"
    by (simp add: recordSpent_def Let_def)
  have d: "onStall t \<and> isStalled (recordSpent t now amt hash) now' \<longrightarrow>
         fst (checkStall (recordSpent t now amt hash) now')
         \<and> \<not> fst (checkStall (snd (checkStall (recordSpent t now amt hash) now')) now'')"
    by (simp add: checkStall_def recordSpent_def Let_def)
  show ?thesis using a b c d by blast
qed


lemma stall_run_scenario: "stall_run stall_tracker stall_calls = [False, True, False, False, True]"
  by (simp add: stall_tracker_def stall_calls_def buyback_start_def new_BuybackTracker_def
      recordSpent_def checkStall_def isStalled_def Let_def)

text \<open>Stall then recovery: the check six minutes after the first spend fires, the next
  check does not, and after the second spend the check six minutes later fires again.\<close>

theorem C7_stall_recovery_witness:
  "stall_run stall_tracker stall_calls = [False, True, False, False, True]
   \<and> (\<exists>k. 1 < k \<and> k < 4 \<and> is_spend (stall_calls ! k))
   \<and> fst (checkStall (recordSpent stall_tracker 1000000 (100 * 10 ^ 18) ''0xa1'') 1360001)
   \<and> \<not> fst (checkStall (snd (checkStall (recordSpent stall_tracker 1000000 (100 * 10 ^ 18) ''0xa1'')
                1360001)) 1370000)
   \<and> spentTotal (recordSpent stall_tracker 1000000 (100 * 10 ^ 18) ''0xa1'')
       < taxTotal (recordSpent stall_tracker 1000000 (100 * 10 ^ 18) ''0xa1'')
   \<and> lastSpentTime (recordSpent stall_tracker 1000000 (100 * 10 ^ 18) ''0xa1'') \<noteq> 0"
proof -
  have run: "stall_run stall_tracker stall_calls = [False, True, False, False, True]"
    by (rule stall_run_scenario)
  have len: "length stall_calls = 5" by (simp add: stall_calls_def)
  have b: "\<exists>k. 1 < k \<and> k < 4 \<and> is_spend (stall_calls ! k)"
    using C7_stall_fires_once_until_spend[where t = stall_tracker and cs = stall_calls,
        THEN conjunct2, THEN conjunct1, rule_format, of 1 4] run len
    by simp
  have on: "onStall stall_tracker"
    by (simp add: stall_tracker_def buyback_start_def new_BuybackTracker_def)
  have stalled: "isStalled (recordSpent stall_tracker 1000000 (100 * 10 ^ 18) ''0xa1'') 1360001"
    by (simp add: stall_tracker_def buyback_start_def new_BuybackTracker_def
      recordSpent_def isStalled_def Let_def)
  have d: "fst (checkStall (recordSpent stall_tracker 1000000 (100 * 10 ^ 18) ''0xa1'') 1360001)
     \<and> \<not> fst (checkStall (snd (checkStall (recordSpent stall_tracker 1000000 (100 * 10 ^ 18) ''0xa1'')
                1360001)) 1370000)"
    using C7_stall_fires_once_until_spend[where t = stall_tracker and now = 1000000
        and amt = "100 * 10 ^ 18" and hash = "''0xa1''" and now' = 1360001 and now'' = 1370000
        and cs = "[]"] on stalled
    by blast
  have a: "spentTotal (recordSpent stall_tracker 1000000 (100 * 10 ^ 18) ''0xa1'')
       < taxTotal (recordSpent stall_tracker 1000000 (100 * 10 ^ 18) ''0xa1'')
   \<and> lastSpentTime (recordSpent stall_tracker 1000000 (100 * 10 ^ 18) ''0xa1'') \<noteq> 0"
    using C7_stall_fires_once_until_spend[where t = "recordSpent stall_tracker 1000000 (100 * 10 ^ 18) ''0xa1''"
        and now = 1360001 and cs = "[]"] d
    by blast
  show ?thesis using run b d a by blast
qed

section \<open>Buyback tracker: a budget of zero (claim C10)\<close>

lemma buyback_run_budget:
  "nonneg_spends cs \<Longrightarrow> 0 \<le> spentTotal t \<Longrightarrow>
   taxTotal (buyback_run t cs) = taxTotal t \<and> 0 \<le> spentTotal (buyback_run t cs)"
proof (induction cs arbitrary: t)
  case Nil
  then show ?case by simp
next
  case (Cons c cs)
  show ?case
  proof (cases c)
    case (RecordSpent now amt hash)
    then show ?thesis
      using Cons.IH[of "recordSpent t now amt hash"] Cons.prems
      by (simp add: recordSpent_def Let_def)
  next
    case (CheckStall now)
    then show ?thesis
      using Cons.IH[of "snd (checkStall t now)"] Cons.prems
      by (simp add: checkStall_def)
  qed
qed

lemma zero_budget_status:
  "taxTotal t = 0 \<Longrightarrow> 0 \<le> spentTotal t \<Longrightarrow>
   isComplete t \<and> progress (getStatus t now) = Num 0 \<and> remaining (getStatus t now) = 0"
  by (simp add: isComplete_def getStatus_def Let_def)

text \<open>
  Claim C10. A tracker constructed with \<open>taxTotal = 0\<close> is complete before any spend. The
  buyback-phase handler, entered with a project, a tax total of zero and no tracker yet,
  creates and starts the tracker and, when the start succeeds, moves to \<open>DONE\<close> at its
  completion check; entered with such a tracker already in place (after a start that
  threw) it moves to \<open>DONE\<close> likewise. After any run of spends (of non-negative amounts)
  and stall checks on a tracker with budget zero, \<open>getStatus\<close> reports progress \<open>0\<close> and
  remaining \<open>0\<close>: the division by \<open>taxTotal\<close> is guarded by \<open>taxTotal > 0\<close>.
\<close>

theorem C10_zero_budget_completes:
  "isComplete (new_BuybackTracker rw sa 0)
   \<and> (project sm = Some agent \<and> buybackTracker sm = None \<and> context_taxTotal sm = 0
        \<and> connectResult env = Inr ()
      \<longrightarrow> fst (handleBuybackPhase rw sa env sm) = Inr ()
          \<and> state (snd (handleBuybackPhase rw sa env sm)) = DONE)
   \<and> (project sm = Some agent \<and> buybackTracker sm = Some tr \<and> taxTotal tr = 0
        \<and> 0 \<le> spentTotal tr
      \<longrightarrow> fst (handleBuybackPhase rw sa env sm) = Inr ()
          \<and> state (snd (handleBuybackPhase rw sa env sm)) = DONE)
   \<and> (nonneg_spends cs
      \<longrightarrow> isComplete (buyback_run (new_BuybackTracker rw sa 0) cs)
          \<and> progress (getStatus (buyback_run (new_BuybackTracker rw sa 0) cs) now) = Num 0
          \<and> remaining (getStatus (buyback_run (new_BuybackTracker rw sa 0) cs) now) = 0)"
proof -
  have a: "isComplete (new_BuybackTracker rw sa 0)"
    by (simp add: isComplete_def new_BuybackTracker_def)
  have b: "project sm = Some agent \<and> buybackTracker sm = None \<and> context_taxTotal sm = 0
        \<and> connectResult env = Inr ()
      \<longrightarrow> fst (handleBuybackPhase rw sa env sm) = Inr ()
          \<and> state (snd (handleBuybackPhase rw sa env sm)) = DONE"
    by (simp add: handleBuybackPhase_def Let_def buyback_start_def new_BuybackTracker_def
      isComplete_def transition_def)
  have c: "project sm = Some agent \<and> buybackTracker sm = Some tr \<and> taxTotal tr = 0
        \<and> 0 \<le> spentTotal tr
      \<longrightarrow> fst (handleBuybackPhase rw sa env sm) = Inr ()
          \<and> state (snd (handleBuybackPhase rw sa env sm)) = DONE"
    by (simp add: handleBuybackPhase_def Let_def isComplete_def transition_def)
  have d: "nonneg_spends cs
      \<longrightarrow> isComplete (buyback_run (new_BuybackTracker rw sa 0) cs)
          \<and> progress (getStatus (buyback_run (new_BuybackTracker rw sa 0) cs) now) = Num 0
          \<and> remaining (getStatus (buyback_run (new_BuybackTracker rw sa 0) cs) now) = 0"
  proof
    assume nn: "nonneg_spends cs"
    have "taxTotal (buyback_run (new_BuybackTracker rw sa 0) cs) = 0
        \<and> 0 \<le> spentTotal (buyback_run (new_BuybackTracker rw sa 0) cs)"
      using buyback_run_budget[OF nn, of "new_BuybackTracker rw sa 0"]
      by (simp add: new_BuybackTracker_def)
    then show "isComplete (buyback_run (new_BuybackTracker rw sa 0) cs)
          \<and> progress (getStatus (buyback_run (new_BuybackTracker rw sa 0) cs) now) = Num 0
          \<and> remaining (getStatus (buyback_run (new_BuybackTracker rw sa 0) cs) now) = 0"
      using zero_budget_status by blast
  qed
  show ?thesis using a b c d by blast
qed

text \<open>A machine entering the buyback phase with tax total zero reaches \<open>DONE\<close> in one run of
  the handler; the status of a zero-budget tracker after a spend has progress and
  remaining zero.\<close>

theorem C10_zero_budget_witness:
  "project zero_budget_machine = Some example_agent
   \<and> buybackTracker zero_budget_machine = None
   \<and> context_taxTotal zero_budget_machine = 0
   \<and> connectResult calm_env = Inr ()
   \<and> fst (handleBuybackPhase 20 5 calm_env zero_budget_machine) = Inr ()
   \<and> state (snd (handleBuybackPhase 20 5 calm_env zero_budget_machine)) = DONE
   \<and> nonneg_spends [RecordSpent 1000000 (3 * 10 ^ 18) ''0xa1'', CheckStall 1360001]
   \<and> progress (getStatus (buyback_run (new_BuybackTracker 20 5 0)
        [RecordSpent 1000000 (3 * 10 ^ 18) ''0xa1'', CheckStall 1360001]) 1400000) = Num 0
   \<and> remaining (getStatus (buyback_run (new_BuybackTracker 20 5 0)
        [RecordSpent 1000000 (3 * 10 ^ 18) ''0xa1'', CheckStall 1360001]) 1400000) = 0"
proof -
  have h: "project zero_budget_machine = Some example_agent"
    "buybackTracker zero_budget_machine = None"
    "context_taxTotal zero_budget_machine = 0"
    "connectResult calm_env = Inr ()"
    by (simp_all add: zero_budget_machine_def calm_env_def)
  have nn: "nonneg_spends [RecordSpent 1000000 (3 * 10 ^ 18) ''0xa1'', CheckStall 1360001]"
    by simp
  show ?thesis
    using C10_zero_budget_completes[where sm = zero_budget_machine and env = calm_env
        and agent = example_agent and rw = 20 and sa = 5 and now = 1400000
        and cs = "[RecordSpent 1000000 (3 * 10 ^ 18) ''0xa1'', CheckStall 1360001]"
        and tr = "new_BuybackTracker 20 5 0"] h nn
    by simp
qed

section \<open>Buyback tracker: the status figures (claim C4)\<close>

lemma foldl_amount: "foldl (\<lambda>acc h. acc + amount h) a xs = a + sum_list (map amount xs)"
  by (induction xs arbitrary: a) auto

lemma bigint_div_nonneg: "0 \<le> a \<Longrightarrow> 0 < b \<Longrightarrow> bigint_div a b = a div b"
  by (cases "a = 0") (simp_all add: bigint_div_def)

lemma in_window_eq:
  "in_window rw now = (\<lambda>h. of_int (time h) \<ge> of_int now - rw * 60 * 1000)"
  by (simp add: fun_eq_iff in_window_def)

lemma buyback_step_window: "rateWindowMinutes (snd (buyback_step t c)) = rateWindowMinutes t"
  by (cases c) (simp_all add: recordSpent_def checkStall_def Let_def)

lemma filter_window_pruned:
  "n \<le> now \<Longrightarrow> filter (in_window rw now) (filter (in_window rw n) xs) = filter (in_window rw now) xs"
proof -
  assume "n \<le> now"
  then have "\<And>h. in_window rw now h \<Longrightarrow> in_window rw n h"
    by (auto simp: in_window_def)
  then show ?thesis by (induction xs) auto
qed

lemma history_keeps_window:
  "\<forall>c \<in> set cs. call_time c \<le> now \<Longrightarrow>
   filter (in_window (rateWindowMinutes t) now) (spentHistory (buyback_run t cs)) =
   filter (in_window (rateWindowMinutes t) now) (spentHistory t @ spend_records cs)"
proof (induction cs arbitrary: t)
  case Nil
  then show ?case by simp
next
  case (Cons c cs)
  note IH = Cons.IH[of "snd (buyback_step t c)"]
  show ?case
  proof (cases c)
    case (RecordSpent n amt hash)
    have n: "n \<le> now" using Cons.prems RecordSpent by simp
    have h: "spentHistory (recordSpent t n amt hash) =
        filter (in_window (rateWindowMinutes t) n)
          (spentHistory t @ [\<lparr>time = n, amount = amt, spent_txHash = hash\<rparr>])"
      by (simp add: recordSpent_def Let_def in_window_eq)
    have rw: "rateWindowMinutes (recordSpent t n amt hash) = rateWindowMinutes t"
      by (simp add: recordSpent_def Let_def)
    have "filter (in_window (rateWindowMinutes t) now) (spentHistory (buyback_run t (c # cs))) =
        filter (in_window (rateWindowMinutes t) now)
          (spentHistory (recordSpent t n amt hash) @ spend_records cs)"
      using IH Cons.prems RecordSpent rw by simp
    also have "\<dots> = filter (in_window (rateWindowMinutes t) now)
          ((spentHistory t @ [\<lparr>time = n, amount = amt, spent_txHash = hash\<rparr>]) @ spend_records cs)"
      unfolding h filter_append filter_window_pruned[OF n] by simp
    finally show ?thesis using RecordSpent by simp
  next
    case (CheckStall n)
    have e: "spentHistory (snd (checkStall t n)) = spentHistory t"
      "rateWindowMinutes (snd (checkStall t n)) = rateWindowMinutes t"
      by (simp_all add: checkStall_def)
    show ?thesis using IH Cons.prems CheckStall e by simp
  qed
qed

text \<open>
  Claim C4, counterexample. With a budget of \<open>100\<cdot>10^18\<close> and \<open>150\<cdot>10^18\<close> spent, \<open>getStatus\<close>
  reports progress \<open>150\<close>; the claim caps progress at \<open>100\<close>.
\<close>

theorem C4_progress_counterexample:
  "taxTotal overspent_tracker = 100 * 10 ^ 18
   \<and> spentTotal overspent_tracker = 150 * 10 ^ 18
   \<and> progress (getStatus overspent_tracker 1200000) = Num 150"
  by (simp add: overspent_tracker_def recordSpent_def new_BuybackTracker_def getStatus_def
      Let_def bigint_div_def)

text \<open>
  Claim C4, as amended. For a tracker with a positive rate window and a non-negative
  \<open>spentTotal\<close>, and with \<open>W\<close> the sum of the recorded spend amounts whose time is at least
  \<open>now - rateWindow\<close>: \<open>spentWindow = W\<close>; \<open>ratePerHour = (W / 10^18 / rateWindowSeconds) \<times> 3600\<close>;
  \<open>remaining = max(0, taxTotal - spentTotal)\<close>; \<open>etaHours = remaining / ratePerHour\<close> (in display
  units) when the rate is positive, that is when \<open>W > 0\<close>, and \<open>Infinity\<close> otherwise; when the
  window is empty the rate is exactly zero and the ETA is \<open>Infinity\<close>; and \<open>progress\<close> is
  \<open>spentTotal \<times> 10000 div taxTotal\<close> divided by \<open>100\<close> when \<open>taxTotal > 0\<close> (the percentage
  truncated to two decimals, not capped at \<open>100\<close>) and \<open>0\<close> otherwise. The records pruned from
  the history by later spends do not change \<open>W\<close>: after any run whose calls are not later
  than \<open>now\<close>, \<open>spentWindow\<close> is the window sum over all spends recorded. Numbers are exact
  rationals here; the rounding of doubles is not modelled.
\<close>

theorem C4_status_formulas:
  assumes "0 < rateWindowMinutes t" and "0 \<le> spentTotal t"
    and "W = sum_list (map amount (filter (in_window (rateWindowMinutes t) now) (spentHistory t)))"
  shows "spentWindow (getStatus t now) = W
    \<and> ratePerHour (getStatus t now)
        = Num ((of_int W / 10 ^ 18) / (rateWindowMinutes t * 60) * 3600)
    \<and> remaining (getStatus t now) = max 0 (taxTotal t - spentTotal t)
    \<and> etaHours (getStatus t now)
        = (if 0 < W
           then Num ((of_int (max 0 (taxTotal t - spentTotal t)) / 10 ^ 18)
                     / ((of_int W / 10 ^ 18) / (rateWindowMinutes t * 60) * 3600))
           else PosInfinity)
    \<and> (W = 0 \<longrightarrow> ratePerHour (getStatus t now) = Num 0
                 \<and> etaHours (getStatus t now) = PosInfinity)
    \<and> progress (getStatus t now)
        = (if 0 < taxTotal t
           then Num (of_int ((spentTotal t * 10000) div taxTotal t) / 100)
           else Num 0)
    \<and> ((\<forall>c \<in> set cs. call_time c \<le> now) \<longrightarrow>
         spentWindow (getStatus (buyback_run t cs) now)
           = sum_list (map amount
               (filter (in_window (rateWindowMinutes t) now) (spentHistory t @ spend_records cs))))"
proof -
  have w: "spentWindow (getStatus t now) = W"
    using assms(3) by (simp add: getStatus_def Let_def foldl_amount in_window_eq)
  have ws: "rateWindowMinutes t * 60 \<noteq> 0" using assms(1) by simp
  have r: "ratePerHour (getStatus t now)
        = Num ((of_int W / 10 ^ 18) / (rateWindowMinutes t * 60) * 3600)"
    using assms(3) ws by (simp add: getStatus_def Let_def foldl_amount formatEtherNum_def in_window_eq)
  have m: "remaining (getStatus t now) = max 0 (taxTotal t - spentTotal t)"
    by (simp add: getStatus_def Let_def max_def)
  have pos: "(0 < (of_int W / 10 ^ 18) / (rateWindowMinutes t * 60) * 3600) = (0 < W)"
    using assms(1) by (simp add: zero_less_mult_iff zero_less_divide_iff)
  have e: "etaHours (getStatus t now)
        = (if 0 < W
           then Num ((of_int (max 0 (taxTotal t - spentTotal t)) / 10 ^ 18)
                     / ((of_int W / 10 ^ 18) / (rateWindowMinutes t * 60) * 3600))
           else PosInfinity)"
  proof -
    have "etaHours (getStatus t now) =
        (if js_positive (ratePerHour (getStatus t now))
         then js_div (formatEtherNum (remaining (getStatus t now))) (ratePerHour (getStatus t now))
         else PosInfinity)"
      by (simp add: getStatus_def Let_def)
    then show ?thesis
      unfolding r m using pos by (auto simp: formatEtherNum_def)
  qed
  have z: "W = 0 \<longrightarrow> ratePerHour (getStatus t now) = Num 0
                 \<and> etaHours (getStatus t now) = PosInfinity"
    using r e by simp
  have p: "progress (getStatus t now)
        = (if 0 < taxTotal t
           then Num (of_int ((spentTotal t * 10000) div taxTotal t) / 100)
           else Num 0)"
    using assms(2) by (simp add: getStatus_def Let_def bigint_div_nonneg)
  have rw: "rateWindowMinutes (buyback_run t cs) = rateWindowMinutes t"
    by (induction cs arbitrary: t) (simp_all add: buyback_step_window)
  have q: "(\<forall>c \<in> set cs. call_time c \<le> now) \<longrightarrow>
         spentWindow (getStatus (buyback_run t cs) now)
           = sum_list (map amount
               (filter (in_window (rateWindowMinutes t) now) (spentHistory t @ spend_records cs)))"
  proof
    assume le: "\<forall>c \<in> set cs. call_time c \<le> now"
    have "spentWindow (getStatus (buyback_run t cs) now) =
        sum_list (map amount (filter (in_window (rateWindowMinutes (buyback_run t cs)) now)
          (spentHistory (buyback_run t cs))))"
      by (simp add: getStatus_def Let_def foldl_amount in_window_eq)
    then show "spentWindow (getStatus (buyback_run t cs) now)
           = sum_list (map amount
               (filter (in_window (rateWindowMinutes t) now) (spentHistory t @ spend_records cs)))"
      unfolding rw using history_keeps_window[OF le, of t] by simp
  qed
  show ?thesis using w r m e z p q by blast
qed

text \<open>The buyback-ETA scenario: budget \<open>1000\<close>, spends of \<open>100\<close> and \<open>50\<close> within the 20-minute
  window: rate \<open>450\<close> per hour, remaining \<open>850\<close>, ETA \<open>17/9\<close> hours, progress \<open>15\<close>.\<close>

theorem C4_eta_witness:
  "0 < rateWindowMinutes eta_tracker \<and> 0 \<le> spentTotal eta_tracker
   \<and> spentWindow (getStatus eta_tracker 2000000) = 150 * 10 ^ 18
   \<and> ratePerHour (getStatus eta_tracker 2000000) = Num 450
   \<and> remaining (getStatus eta_tracker 2000000) = 850 * 10 ^ 18
   \<and> etaHours (getStatus eta_tracker 2000000) = Num (17 / 9)
   \<and> progress (getStatus eta_tracker 2000000) = Num 15"
proof -
  have t: "eta_tracker =
      \<lparr>taxTotal = 1000 * 10 ^ 18, rateWindowMinutes = 20, stallAlertMinutes = 5,
       spentHistory = [\<lparr>time = 1100000, amount = 100 * 10 ^ 18, spent_txHash = ''0xa1''\<rparr>,
                       \<lparr>time = 1700000, amount = 50 * 10 ^ 18, spent_txHash = ''0xb2''\<rparr>],
       spentTotal = 150 * 10 ^ 18, lastSpentTime = 1700000, onStall = True, isRunning = True,
       stallAlerted = False\<rparr>"
    by (simp add: eta_tracker_def stall_tracker_def buyback_start_def new_BuybackTracker_def
        recordSpent_def Let_def)
  have h: "0 < rateWindowMinutes eta_tracker" "0 \<le> spentTotal eta_tracker"
    by (simp_all add: t)
  have W: "(150 * 10 ^ 18 :: int) = sum_list (map amount
              (filter (in_window (rateWindowMinutes eta_tracker) 2000000) (spentHistory eta_tracker)))"
    by (simp add: t in_window_def)
  show ?thesis
    using C4_status_formulas[OF h W, of "[]"] h by (simp add: t)
qed

section \<open>API server: the trade ring (claim C9)\<close>






section \<open>Catalog: upcoming launches (claim C8)\<close>

lemma map_of_replace:
  "map_of (map (\<lambda>e. if fst e = k then (k, v) else e) m) x =
     (if x = k then (if k \<in> fst ` set m then Some v else None) else map_of m x)"
  by (induction m) (auto simp: rev_image_eqI)

lemma map_of_map_set: "map_of (map_set m k v) = (map_of m)(k \<mapsto> v)"
proof (cases "map_has m k")
  case True
  then show ?thesis
    by (auto simp: map_set_def map_has_def map_of_replace fun_eq_iff)
next
  case False
  then have "map_of m k = None" by (simp add: map_has_def map_of_eq_None_iff)
  then show ?thesis using False
    by (auto simp: map_set_def fun_eq_iff map_add_def split: option.splits)
qed

lemma keys_map_set:
  "map fst (map_set m k v) = (if map_has m k then map fst m else map fst m @ [k])"
  by (induction m) (auto simp: map_set_def map_has_def)

lemma entries_map_set:
  "\<forall>e \<in> set m. fst e = f (snd e) \<Longrightarrow> \<forall>e \<in> set (map_set m (f x) x). fst e = f (snd e)"
  by (auto simp: map_set_def)

lemma dedupe_snoc: "dedupe (xs @ [x]) = map_set (dedupe xs) (agent_id x) x"
  by (simp add: dedupe_def)

lemma lastOfId_snoc:
  "lastOfId (xs @ [x]) = (lastOfId xs)(agent_id x \<mapsto> x)"
  by (auto simp: lastOfId_def fun_eq_iff)

lemma dedupe_props:
  "distinct (map fst (dedupe xs))
   \<and> (\<forall>e \<in> set (dedupe xs). fst e = agent_id (snd e))
   \<and> map_of (dedupe xs) = lastOfId xs"
proof (induction xs rule: rev_induct)
  case Nil
  then show ?case by (simp add: dedupe_def lastOfId_def fun_eq_iff)
next
  case (snoc x xs)
  have d: "distinct (map fst (dedupe (xs @ [x])))"
    using snoc by (simp add: dedupe_snoc keys_map_set map_has_def)
  have e: "\<forall>e \<in> set (dedupe (xs @ [x])). fst e = agent_id (snd e)"
    using snoc entries_map_set[of "dedupe xs" agent_id x] by (simp add: dedupe_snoc)
  have m: "map_of (dedupe (xs @ [x])) = lastOfId (xs @ [x])"
    using snoc by (simp add: dedupe_snoc map_of_map_set lastOfId_snoc)
  show ?case using d e m by blast
qed

lemma values_dedupe:
  "(a \<in> set (map_values (dedupe xs))) = (lastOfId xs (agent_id a) = Some a)"
proof
  assume "a \<in> set (map_values (dedupe xs))"
  then obtain e where e: "e \<in> set (dedupe xs)" "snd e = a" by (auto simp: map_values_def)
  then have "fst e = agent_id a" using dedupe_props[of xs] by auto
  then have "(agent_id a, a) \<in> set (dedupe xs)" using e by (cases e) auto
  moreover have "distinct (map fst (dedupe xs))" using dedupe_props[of xs] by blast
  ultimately have "map_of (dedupe xs) (agent_id a) = Some a"
    by (simp only: map_of_eq_Some_iff)
  then show "lastOfId xs (agent_id a) = Some a" using dedupe_props[of xs] by simp
next
  assume "lastOfId xs (agent_id a) = Some a"
  then have "map_of (dedupe xs) (agent_id a) = Some a" using dedupe_props[of xs] by simp
  then have "(agent_id a, a) \<in> set (dedupe xs)" by (rule map_of_SomeD)
  then show "a \<in> set (map_values (dedupe xs))" by (force simp: map_values_def)
qed

lemma ids_dedupe: "map agent_id (map_values (dedupe xs)) = map fst (dedupe xs)"
  using dedupe_props[of xs] by (simp add: map_values_def)

lemma distinct_ids_dedupe: "distinct (map agent_id (map_values (dedupe xs)))"
  using dedupe_props[of xs] by (simp add: ids_dedupe)


lemma launchesSoon_iff:
  "launchesSoon dp nowTs a =
     (\<exists>ts. parseTimestamp dp (launchedAt a) = Some ts \<and> nowTs \<le> ts \<and> ts \<le> nowTs + 864000000)"
  by (auto simp: launchesSoon_def Let_def split: option.splits)

text \<open>
  Claim C8, counterexample. The merge stores every agent under its id with \<open>Map.set\<close>, so a
  later record with the same id replaces the earlier one: of two records of agent 7, the
  one from the second factory list is returned, not the first occurrence.
\<close>

theorem C8_keep_first_counterexample:
  "agent_id pending_first = agent_id pending_second
   \<and> pending_first \<noteq> pending_second
   \<and> isPending pending_first \<and> launchesSoon example_dateParse 1767000000000 pending_first
   \<and> upcomingFrom example_dateParse 1767000000000 [pending_first] [pending_second] []
       = [pending_second]"
  by (simp add: upcomingFrom_def dedupe_def map_set_def map_has_def map_values_def
      isPending_def launchesSoon_def parseTimestamp_def example_dateParse_def Let_def
      pending_first_def pending_second_def)

text \<open>
  Claim C8, as amended. The agents returned from the three exhausted factory lists are
  exactly those that are the last occurrence of their id in the concatenation of the
  lists (vibes, then v4, then v2), have status \<open>INITIALIZED\<close>, a non-empty \<open>preTokenPair\<close>,
  no \<open>lpCreatedAt\<close>, and a parseable launch time within \<open>[now, now + 10 days]\<close>; no id occurs
  twice, and the result is sorted ascending by launch time. With no fresh cache entry
  (none, or one at least 30 seconds old) the call returns this list and caches it; with
  a fresh entry it returns the cached list without looking at the factory lists.
\<close>

theorem C8_upcoming_launches:
  "set (upcomingFrom dp nowTs vibes unicorn unicornV2) =
     {a. lastOfId (vibes @ unicorn @ unicornV2) (agent_id a) = Some a
         \<and> status a = INITIALIZED \<and> truthy (preTokenPair a) \<and> \<not> truthy (lpCreatedAt a)
         \<and> (\<exists>ts. parseTimestamp dp (launchedAt a) = Some ts
                \<and> nowTs \<le> ts \<and> ts \<le> nowTs + 10 * 24 * 60 * 60 * 1000)}
   \<and> distinct (map agent_id (upcomingFrom dp nowTs vibes unicorn unicornV2))
   \<and> sorted (map (launchKey dp) (upcomingFrom dp nowTs vibes unicorn unicornV2))
   \<and> (\<forall>a \<in> set (upcomingFrom dp nowTs vibes unicorn unicornV2).
         parseTimestamp dp (launchedAt a) = Some (launchKey dp a))
   \<and> ((\<forall>ts cached. upcomingCache api = Some (ts, cached) \<longrightarrow> \<not> now - ts < 30000) \<longrightarrow>
        getUpcomingLaunches api dp now nowTs cacheTs (Inr vibes) (Inr unicorn) (Inr unicornV2)
          = (Inr (upcomingFrom dp nowTs vibes unicorn unicornV2),
             api\<lparr>upcomingCache := Some (cacheTs, upcomingFrom dp nowTs vibes unicorn unicornV2)\<rparr>))
   \<and> (\<forall>ts cached. upcomingCache api = Some (ts, cached) \<and> now - ts < 30000 \<longrightarrow>
        getUpcomingLaunches api dp now nowTs cacheTs vibesR unicornR unicornV2R
          = (Inr cached, api))"
proof -
  let ?merged = "vibes @ unicorn @ unicornV2"
  let ?vals = "map_values (dedupe ?merged)"
  let ?res = "upcomingFrom dp nowTs vibes unicorn unicornV2"
  have res: "?res = sort_key (launchKey dp) (filter (launchesSoon dp nowTs) (filter isPending ?vals))"
    by (simp add: upcomingFrom_def Let_def)
  have a: "set ?res =
     {a. lastOfId ?merged (agent_id a) = Some a
         \<and> status a = INITIALIZED \<and> truthy (preTokenPair a) \<and> \<not> truthy (lpCreatedAt a)
         \<and> (\<exists>ts. parseTimestamp dp (launchedAt a) = Some ts
                \<and> nowTs \<le> ts \<and> ts \<le> nowTs + 10 * 24 * 60 * 60 * 1000)}"
    unfolding res using values_dedupe[of _ ?merged]
    by (auto simp: isPending_def launchesSoon_iff)
  have dv: "distinct (map agent_id ?vals)" by (rule distinct_ids_dedupe)
  have "distinct (map agent_id (filter (launchesSoon dp nowTs) (filter isPending ?vals)))"
    using dv by (simp add: distinct_map_filter)
  then have b: "distinct (map agent_id ?res)"
    unfolding res by (simp add: distinct_map)
  have c: "sorted (map (launchKey dp) ?res)"
    unfolding res by (rule sorted_sort_key)
  have d: "\<forall>a \<in> set ?res. parseTimestamp dp (launchedAt a) = Some (launchKey dp a)"
    unfolding res by (auto simp: launchesSoon_iff launchKey_def)
  have e: "(\<forall>ts cached. upcomingCache api = Some (ts, cached) \<longrightarrow> \<not> now - ts < 30000) \<longrightarrow>
        getUpcomingLaunches api dp now nowTs cacheTs (Inr vibes) (Inr unicorn) (Inr unicornV2)
          = (Inr ?res, api\<lparr>upcomingCache := Some (cacheTs, ?res)\<rparr>)"
  proof (cases "upcomingCache api")
    case None
    then show ?thesis by (simp add: getUpcomingLaunches_def Let_def)
  next
    case (Some p)
    obtain ts cached where p: "p = (ts, cached)" by (cases p)
    show ?thesis
    proof
      assume "\<forall>ts cached. upcomingCache api = Some (ts, cached) \<longrightarrow> \<not> now - ts < 30000"
      then have "\<not> now - ts < 30000" using Some p by simp
      then show "getUpcomingLaunches api dp now nowTs cacheTs (Inr vibes) (Inr unicorn) (Inr unicornV2)
          = (Inr ?res, api\<lparr>upcomingCache := Some (cacheTs, ?res)\<rparr>)"
        using Some p by (simp add: getUpcomingLaunches_def Let_def)
    qed
  qed
  have f: "\<forall>ts cached. upcomingCache api = Some (ts, cached) \<and> now - ts < 30000 \<longrightarrow>
        getUpcomingLaunches api dp now nowTs cacheTs vibesR unicornR unicornV2R
          = (Inr cached, api)"
    by (simp add: getUpcomingLaunches_def)
  show ?thesis using a b c d e f by blast
qed

text \<open>A call with a stale cache entry computes and caches the list; a call ten seconds
  later returns the cached list although a factory query fails.\<close>

theorem C8_upcoming_witness:
  "getUpcomingLaunches \<lparr>upcomingCache = Some (1766999000000, [])\<rparr> example_dateParse
       1767000000000 1767000000500 1767000000501
       (Inr [pending_first]) (Inr [pending_second]) (Inr [])
     = (Inr [pending_second],
        \<lparr>upcomingCache = Some (1767000000501, [pending_second])\<rparr>)
   \<and> getUpcomingLaunches \<lparr>upcomingCache = Some (1767000000501, [pending_second])\<rparr>
       example_dateParse 1767000010000 1767000010500 1767000010501
       (Inr []) (Inr []) (Inl (Exn ''timeout''))
     = (Inr [pending_second], \<lparr>upcomingCache = Some (1767000000501, [pending_second])\<rparr>)
   \<and> parseTimestamp example_dateParse (launchedAt pending_second) = Some 1767225600000"
proof -
  have r: "upcomingFrom example_dateParse 1767000000500 [pending_first] [pending_second] []
       = [pending_second]"
    by (simp add: upcomingFrom_def dedupe_def map_set_def map_has_def map_values_def
      isPending_def launchesSoon_def parseTimestamp_def example_dateParse_def Let_def
      pending_first_def pending_second_def)
  note th1 = C8_upcoming_launches[where api = "\<lparr>upcomingCache = Some (1766999000000, [])\<rparr>"
        and dp = example_dateParse and now = 1767000000000 and nowTs = 1767000000500
        and cacheTs = 1767000000501 and vibes = "[pending_first]" and unicorn = "[pending_second]"
        and ?unicornV2.0 = "[]",
        THEN conjunct2, THEN conjunct2, THEN conjunct2, THEN conjunct2, THEN conjunct1]
  note th2 = C8_upcoming_launches[where api = "\<lparr>upcomingCache = Some (1767000000501, [pending_second])\<rparr>"
        and dp = example_dateParse and now = 1767000010000 and nowTs = 1767000010500
        and cacheTs = 1767000010501 and vibesR = "Inr []" and unicornR = "Inr []"
        and ?unicornV2R.0 = "Inl (Exn ''timeout'')",
        THEN conjunct2, THEN conjunct2, THEN conjunct2, THEN conjunct2, THEN conjunct2,
        rule_format, of 1767000000501 "[pending_second]"]
  have first: "getUpcomingLaunches \<lparr>upcomingCache = Some (1766999000000, [])\<rparr> example_dateParse
       1767000000000 1767000000500 1767000000501
       (Inr [pending_first]) (Inr [pending_second]) (Inr [])
     = (Inr [pending_second],
        \<lparr>upcomingCache = Some (1767000000501, [pending_second])\<rparr>)"
    using th1 by (simp add: r)
  have second: "getUpcomingLaunches \<lparr>upcomingCache = Some (1767000000501, [pending_second])\<rparr>
       example_dateParse 1767000010000 1767000010500 1767000010501
       (Inr []) (Inr []) (Inl (Exn ''timeout''))
     = (Inr [pending_second], \<lparr>upcomingCache = Some (1767000000501, [pending_second])\<rparr>)"
    using th2 by simp
  have third: "parseTimestamp example_dateParse (launchedAt pending_second) = Some 1767225600000"
    by (simp add: parseTimestamp_def example_dateParse_def pending_first_def pending_second_def)
  show ?thesis using first second third by blast
qed

end
